theory Spec2Isabelle
  imports Complex_Main "HOL-Library.Multiset" "HOL-Library.Sublist"
begin

section \<open>The two tables as \<^verbatim>\<open>read_csv\<close> delivers them\<close>

text \<open>
  The script reads \<^verbatim>\<open>goodreads_books.csv\<close> and \<^verbatim>\<open>categories_books.csv\<close> with
  \<^verbatim>\<open>pd.read_csv\<close> (lines 19-20). A text cell of the file reaches the program as a
  string, or as the missing value \<^verbatim>\<open>nan\<close> when its text is one of the parser's
  default missing-value spellings; the empty cell is one of them. A missing value is
  \<open>None\<close> here.

  A \<^typ>\<open>char\<close> stands for a code point below 256; a \<^typ>\<open>string\<close> is a Python
  \<^verbatim>\<open>str\<close> over such code points.
\<close>

definition na_values :: "string list" where
  "na_values =
    ['''', ''#N/A'', ''#N/A N/A'', ''#NA'', ''-1.#IND'', ''-1.#QNAN'', ''-NaN'', ''-nan'',
     ''1.#IND'', ''1.#QNAN'', ''<NA>'', ''N/A'', ''NA'', ''NULL'', ''NaN'', ''None'',
     ''n/a'', ''nan'', ''null'']"

definition read_cell :: "string \<Rightarrow> string option" where
  "read_cell s = (if s \<in> set na_values then None else Some s)"

text \<open>
  A row of \<^verbatim>\<open>goodreads\<close> after line 26 (the column \<^verbatim>\<open>isbn\<close> renamed to
  \<^verbatim>\<open>isbn10\<close>) and the deletions of lines 38 and 52. The text columns hold the text of the
  cell. The three numeric columns hold numbers or missing values: a cell of
  \<^verbatim>\<open>average_rating\<close> is a finite float, idealised as a real number, or
  \<^verbatim>\<open>nan\<close> (\<open>None\<close>) when the cell of the file is empty; the cells of
  \<^verbatim>\<open>ratings_count\<close> and \<^verbatim>\<open>'  num_pages'\<close> are integers, or missing.
  \<open>g_other\<close> holds the columns the pipeline only carries along (the title, the publisher
  and so on).
\<close>

record 'g goodreads_csv =
  g_isbn10 :: string
  g_authors :: string
  g_average_rating :: "real option"
  g_ratings_count :: "int option"
  g_num_pages :: "int option"
  g_other :: 'g

text \<open>
  A row of \<^verbatim>\<open>categories\<close> after the deletions of lines 37 and 44-49; \<open>c_other\<close>
  holds the description, the thumbnail and the other columns carried along.
\<close>

record 'c categories_csv =
  c_isbn10 :: string
  c_categories :: string
  c_other :: 'c

section \<open>Merging (line 56)\<close>

text \<open>
  \<^verbatim>\<open>pd.merge(goodreads, categories, how="inner", on=["isbn10"])\<close>: every pair of a left
  row and a right row with equal keys, in the order of the left rows. Missing keys are
  equal to each other in a pandas merge, as \<open>None = None\<close> is here.
\<close>

definition merge :: "'g goodreads_csv list \<Rightarrow> 'c categories_csv list \<Rightarrow>
    ('g goodreads_csv \<times> 'c categories_csv) list" where
  "merge goodreads categories =
     concat (map (\<lambda>g. map (\<lambda>c. (g, c))
       (filter (\<lambda>c. read_cell (c_isbn10 c) = read_cell (g_isbn10 g)) categories)) goodreads)"


section \<open>Casting the columns (lines 59-62)\<close>

text \<open>
  A row of \<^verbatim>\<open>all_books\<close> once the columns have their types. \<^verbatim>\<open>astype(float)\<close>
  leaves a float column as it is, a missing rating staying \<^verbatim>\<open>nan\<close> (\<open>None\<close>);
  \<^verbatim>\<open>astype(int)\<close> raises on a column with a missing cell; \<^verbatim>\<open>astype(str)\<close> turns a
  missing category into the string \<^verbatim>\<open>'nan'\<close>.
\<close>

record ('g, 'c) row =
  isbn10 :: "string option"
  authors :: "string option"
  average_rating :: "real option"
  ratings_count :: int
  num_pages :: int
  categories :: string
  goodreads_other :: 'g
  categories_other :: 'c

datatype pipeline_error = IntCastingNaNError

definition astype_str :: "string option \<Rightarrow> string" where
  "astype_str cell = (case cell of None \<Rightarrow> ''nan'' | Some s \<Rightarrow> s)"

definition cast_row :: "('g goodreads_csv \<times> 'c categories_csv) \<Rightarrow> ('g, 'c) row option" where
  "cast_row gc =
     (case (g_ratings_count (fst gc), g_num_pages (fst gc)) of
        (Some rc, Some np) \<Rightarrow>
          Some \<lparr>isbn10 = read_cell (g_isbn10 (fst gc)),
                authors = read_cell (g_authors (fst gc)),
                average_rating = g_average_rating (fst gc),
                ratings_count = rc,
                num_pages = np,
                categories = astype_str (read_cell (c_categories (snd gc))),
                goodreads_other = g_other (fst gc),
                categories_other = c_other (snd gc)\<rparr>
      | _ \<Rightarrow> None)"

definition astype_columns :: "('g goodreads_csv \<times> 'c categories_csv) list \<Rightarrow>
    pipeline_error + ('g, 'c) row list" where
  "astype_columns merged =
     (case those (map cast_row merged) of
        None \<Rightarrow> Inl IntCastingNaNError
      | Some rows \<Rightarrow> Inr rows)"

section \<open>Grouping similar genres (lines 68-87)\<close>

definition similar_genre :: "(string \<times> string) list" where
  "similar_genre =
    [(''BIOGRAPHY & AUTOBIOGRAPHY'', ''Biography & Autobiography''),
     (''Political science'', ''Political Science''),
     (''Political leadership'', ''Political Science''),
     (''Political fiction'', ''Political Science''),
     (''Literary Criticism & Collections'', ''Literary Criticism''),
     (''LITERARY CRITICISM'', ''Literary Criticism''),
     (''JUVENILE FICTION'', ''Juvenile Fiction''),
     (''Humorous stories, American'', ''Humor''),
     (''Humorous stories'', ''Humor''),
     (''Humorous stories, English'', ''Humor''),
     (''Humorous fiction'', ''Humor''),
     (''Comedy'', ''Humor''),
     (''Detective and mystery stories, American'', ''Detective and mystery stories''),
     (''Detective and mystery stories, English'', ''Detective and mystery stories'')]"

text \<open>\<^verbatim>\<open>Series.replace(similar_genre)\<close> on one value, and on the column.\<close>

definition replace_genre :: "string \<Rightarrow> string" where
  "replace_genre s = (case map_of similar_genre s of None \<Rightarrow> s | Some v \<Rightarrow> v)"

definition replace_categories :: "('g, 'c) row list \<Rightarrow> ('g, 'c) row list" where
  "replace_categories rows = map (\<lambda>r. r\<lparr>categories := replace_genre (categories r)\<rparr>) rows"

section \<open>Eliminating infrequent genres (lines 93-117)\<close>

text \<open>
  The loop of lines 100-107 over \<^verbatim>\<open>cate_list\<close>, with the dictionary
  \<^verbatim>\<open>frequency\<close> passed along.
\<close>

fun count_items :: "(string \<rightharpoonup> nat) \<Rightarrow> string list \<Rightarrow> (string \<rightharpoonup> nat)" where
  "count_items frequency [] = frequency"
| "count_items frequency (item # cate_list) =
     count_items
       (case frequency item of
          Some n \<Rightarrow> frequency(item \<mapsto> n + 1)
        | None \<Rightarrow> frequency(item \<mapsto> 1))
       cate_list"

definition frequency :: "('g, 'c) row list \<Rightarrow> (string \<rightharpoonup> nat)" where
  "frequency rows = count_items Map.empty (map categories rows)"

record ('g, 'c) frow = "('g, 'c) row" +
  genre_frequency :: nat

text \<open>
  Line 110, \<^verbatim>\<open>all_books['categories'].map(frequency)\<close>, on one row. A category that
  is no key of the dictionary would give \<^verbatim>\<open>nan\<close>, which fails the test of line 114
  as the count 0 does; every category of the column is a key (\<open>frequency_counts\<close> below).
\<close>

definition map_frequency :: "(string \<rightharpoonup> nat) \<Rightarrow> ('g, 'c) row \<Rightarrow> ('g, 'c) frow" where
  "map_frequency freq r =
     \<lparr>isbn10 = isbn10 r, authors = authors r, average_rating = average_rating r,
      ratings_count = ratings_count r, num_pages = num_pages r, categories = categories r,
      goodreads_other = goodreads_other r, categories_other = categories_other r,
      genre_frequency = (case freq (categories r) of Some n \<Rightarrow> n | None \<Rightarrow> 0)\<rparr>"

definition frequency_filter :: "('g, 'c) row list \<Rightarrow> ('g, 'c) frow list" where
  "frequency_filter rows =
     filter (\<lambda>r. categories r \<noteq> ''nan'')
       (filter (\<lambda>r. genre_frequency r \<ge> 5)
         (map (map_frequency (frequency rows)) rows))"

section \<open>The Bayesian average (lines 142-158)\<close>

text \<open>
  A float64 value: a finite number (idealised as a real), an infinity or \<^verbatim>\<open>nan\<close>.
  Dividing by zero raises nothing in numpy: the quotient is an infinity, or
  \<^verbatim>\<open>nan\<close> for \<^verbatim>\<open>0/0\<close>. The divisors of line 149 are never the negative zero.
\<close>

datatype fl = Fin real | PInf | NInf | NaN

definition fdiv :: "real \<Rightarrow> real \<Rightarrow> fl" where
  "fdiv x y =
     (if y \<noteq> 0 then Fin (x / y)
      else if x > 0 then PInf
      else if x < 0 then NInf
      else NaN)"

text \<open>
  \<^verbatim>\<open>Series.quantile(q)\<close> with its default linear interpolation, on a column of
  integers; it is \<^verbatim>\<open>nan\<close> (\<open>None\<close>) on an empty column.
\<close>

definition quantile :: "real \<Rightarrow> int list \<Rightarrow> real option" where
  "quantile q xs =
     (if xs = [] then None
      else
        let v = sort xs;
            idx = q * real (length xs - 1);
            lo = nat \<lfloor>idx\<rfloor>;
            hi = min (lo + 1) (length xs - 1)
        in Some (real_of_int (v ! lo) + (real_of_int (v ! hi) - real_of_int (v ! lo)) * (idx - real lo)))"

text \<open>
  \<^verbatim>\<open>Series.mean()\<close> skips the missing cells (\<^verbatim>\<open>skipna=True\<close>): it is the sum of the
  cells that hold a number over the number of those cells, and \<^verbatim>\<open>nan\<close> (\<open>None\<close>)
  when no cell holds one.
\<close>

definition mean :: "real option list \<Rightarrow> real option" where
  "mean xs =
     (let rated = [a. Some a \<leftarrow> xs]
      in if rated = [] then None else Some (sum_list rated / real (length rated)))"

text \<open>
  Line 149 on one row, for the \<^verbatim>\<open>C\<close> and \<^verbatim>\<open>m\<close> of lines 142 and 145. A
  \<^verbatim>\<open>nan\<close> among the rating, \<^verbatim>\<open>C\<close> and \<^verbatim>\<open>m\<close> makes the numerator, and with it
  the quotient, \<^verbatim>\<open>nan\<close>.
\<close>

definition bayes :: "real option \<Rightarrow> real option \<Rightarrow> real option \<Rightarrow> int \<Rightarrow> fl" where
  "bayes C m rating cnt =
     (case (C, m, rating) of
        (Some c, Some mu, Some a) \<Rightarrow> fdiv (a * real_of_int cnt + c * mu) (real_of_int cnt + c)
      | _ \<Rightarrow> NaN)"

text \<open>
  \<^verbatim>\<open>Series.round()\<close> (line 158) rounds to the nearest integer, a tie to the even
  neighbour; a missing rating stays missing.
\<close>

definition round_half_even :: "real \<Rightarrow> int" where
  "round_half_even x =
     (let f = \<lfloor>x\<rfloor>; d = x - of_int f
      in if d < 1/2 then f
         else if d > 1/2 then f + 1
         else if even f then f else f + 1)"

record ('g, 'c) book = "('g, 'c) frow" +
  bayes_average :: fl
  rounded_rating :: "int option"

definition score :: "('g, 'c) frow list \<Rightarrow> ('g, 'c) book list" where
  "score rows =
     (let C = quantile (1/4) (map ratings_count rows);
          m = mean (map average_rating rows)
      in map (\<lambda>r.
           \<lparr>isbn10 = isbn10 r, authors = authors r, average_rating = average_rating r,
            ratings_count = ratings_count r, num_pages = num_pages r,
            categories = categories r, goodreads_other = goodreads_other r,
            categories_other = categories_other r, genre_frequency = genre_frequency r,
            bayes_average = bayes C m (average_rating r) (ratings_count r),
            rounded_rating = map_option round_half_even (average_rating r)\<rparr>) rows)"

text \<open>The table \<^verbatim>\<open>all_books\<close> as the queries see it: lines 56-158.\<close>

definition all_books :: "'g goodreads_csv list \<Rightarrow> 'c categories_csv list \<Rightarrow>
    pipeline_error + ('g, 'c) book list" where
  "all_books goodreads_tbl categories_tbl =
     (case astype_columns (merge goodreads_tbl categories_tbl) of
        Inl e \<Rightarrow> Inl e
      | Inr rows \<Rightarrow> Inr (score (frequency_filter (replace_categories rows))))"

section \<open>Narrowing by pages and ranking (lines 162-176)\<close>

text \<open>The three options of the page-number select box (lines 250 and 267).\<close>

datatype pages = Under300 | From300To499 | From500

definition narrowed_pages :: "pages \<Rightarrow> ('g, 'c) book list \<Rightarrow> ('g, 'c) book list" where
  "narrowed_pages pages narrowed_set =
     (case pages of
        Under300 \<Rightarrow> filter (\<lambda>r. num_pages r < 300) narrowed_set
      | From300To499 \<Rightarrow> filter (\<lambda>r. 300 \<le> num_pages r \<and> num_pages r \<le> 499) narrowed_set
      | From500 \<Rightarrow> filter (\<lambda>r. 500 \<le> num_pages r) narrowed_set)"

text \<open>The comparison \<^verbatim>\<open><=\<close> of two floats: false as soon as one is \<^verbatim>\<open>nan\<close>.\<close>

fun fl_le :: "fl \<Rightarrow> fl \<Rightarrow> bool" where
  "fl_le NaN y = False"
| "fl_le x NaN = False"
| "fl_le NInf y = True"
| "fl_le x PInf = True"
| "fl_le (Fin x) (Fin y) = (x \<le> y)"
| "fl_le PInf y = False"
| "fl_le (Fin x) NInf = False"

definition fl_ge :: "fl \<Rightarrow> fl \<Rightarrow> bool" where
  "fl_ge x y = fl_le y x"

text \<open>
  \<^verbatim>\<open>sort_values(['bayes_average'], ascending=[False])\<close> with its defaults
  (\<^verbatim>\<open>kind='quicksort'\<close>, \<^verbatim>\<open>na_position='last'\<close>). pandas sets the rows with a
  \<^verbatim>\<open>nan\<close> key aside, reverses the others, sorts them in ascending order of the key with
  numpy's \<^verbatim>\<open>argsort\<close>, reverses the outcome and appends the \<^verbatim>\<open>nan\<close> rows in their
  original order. The quicksort of numpy is not a stable sort, and of \<^verbatim>\<open>argsort\<close> the
  relation keeps what every kind of it gives: \<open>zs\<close> is a rearrangement of the rows in
  ascending order of the key.
\<close>

inductive sort_values :: "('g, 'c) book list \<Rightarrow> ('g, 'c) book list \<Rightarrow> bool" where
  sort_valuesI:
  "mset zs = mset (rev (filter (\<lambda>r. bayes_average r \<noteq> NaN) df)) \<Longrightarrow>
   sorted_wrt (\<lambda>a b. fl_le (bayes_average a) (bayes_average b)) zs \<Longrightarrow>
   sort_values df (rev zs @ filter (\<lambda>r. bayes_average r = NaN) df)"

text \<open>
  What a run of the script ends in when it raises: \<^verbatim>\<open>re.error\<close> from compiling the
  text of the author box (line 256), or \<^verbatim>\<open>ValueError\<close> from \<^verbatim>\<open>int\<close> of a
  \<^verbatim>\<open>nan\<close> rounded rating (line 216).
\<close>

datatype script_error = RegexError | ValueError

text \<open>
  \<^verbatim>\<open>narrowed_general\<close>: the books it shows, in the order it shows them, or the error it
  raises. The number input of lines 253 and 270 has \<^verbatim>\<open>min_value = 0\<close>, so
  \<^verbatim>\<open>number_rec\<close> is a natural number and \<^verbatim>\<open>head(number_rec)\<close> keeps the first
  \<^verbatim>\<open>number_rec\<close> rows. With an empty \<^verbatim>\<open>user_input\<close> the loop of line 209 is skipped
  and nothing is shown. Otherwise the loop shows the rows of \<^verbatim>\<open>displayed_df\<close> one after
  the other, and line 216 raises at the first of them whose rounded rating is
  \<^verbatim>\<open>nan\<close>.
\<close>

inductive narrowed_general ::
    "pages \<Rightarrow> nat \<Rightarrow> ('g, 'c) book list \<Rightarrow> string \<Rightarrow>
     script_error + ('g, 'c) book list \<Rightarrow> bool" where
  narrowed_generalI:
  "sort_values (narrowed_pages pages narrowed_set) sorted_df \<Longrightarrow>
   displayed_df = take number_rec sorted_df \<Longrightarrow>
   narrowed_general pages number_rec narrowed_set user_input
     (if user_input = [] then Inr []
      else if list_ex (\<lambda>r. rounded_rating r = None) displayed_df then Inl ValueError
      else Inr displayed_df)"

section \<open>Narrowing by author or genre (lines 235-280)\<close>

text \<open>
  \<^verbatim>\<open>str.contains(author, case=False, na=False)\<close> leaves \<^verbatim>\<open>regex\<close> at its default
  \<^verbatim>\<open>True\<close>: the text of the author box is compiled as a regular expression with
  \<^verbatim>\<open>re.IGNORECASE\<close> and searched for in every author cell that is not missing.
  Here the expressions made of \<^verbatim>\<open>.\<close> and of ASCII characters with no special meaning are
  read as Python reads them: \<^verbatim>\<open>.\<close> matches any character but the newline, another
  character matches itself in either case. An expression with an opening parenthesis
  that nothing closes (it has no \<^verbatim>\<open>)\<close>, and neither a backslash nor a \<^verbatim>\<open>[\<close> that
  could take the meaning of the parenthesis away) does not compile: \<^verbatim>\<open>re.compile\<close>
  raises \<^verbatim>\<open>re.error\<close>. What the library does with any other expression (a search of
  its own, or \<^verbatim>\<open>re.error\<close>) is the parameter \<open>other\<close>.
\<close>

definition re_metachars :: "char list" where
  "re_metachars =
     [CHR ''.'', CHR ''^'', CHR ''$'', CHR ''*'', CHR ''+'', CHR ''?'', CHR ''{'', CHR ''}'',
      CHR ''['', CHR '']'', CHR 0x5C, CHR ''|'', CHR ''('', CHR '')'']"

definition plain_char :: "char \<Rightarrow> bool" where
  "plain_char c = ((of_char c :: nat) < 128 \<and> c \<notin> set re_metachars)"

definition ascii_lower :: "char \<Rightarrow> char" where
  "ascii_lower c =
     (case map_of (zip ''ABCDEFGHIJKLMNOPQRSTUVWXYZ'' ''abcdefghijklmnopqrstuvwxyz'') c of
        Some l \<Rightarrow> l
      | None \<Rightarrow> c)"

fun match_here :: "string \<Rightarrow> string \<Rightarrow> bool" where
  "match_here [] s = True"
| "match_here (p # ps) [] = False"
| "match_here (p # ps) (c # cs) =
     ((if p = CHR ''.'' then c \<noteq> CHR 0x0A else ascii_lower p = ascii_lower c)
      \<and> match_here ps cs)"

fun re_search :: "string \<Rightarrow> string \<Rightarrow> bool" where
  "re_search pat [] = match_here pat []"
| "re_search pat (c # cs) = (match_here pat (c # cs) \<or> re_search pat cs)"

datatype re_error = ReError

definition unclosed_group :: "string \<Rightarrow> bool" where
  "unclosed_group pat =
     (CHR ''('' \<in> set pat \<and> CHR '')'' \<notin> set pat \<and> CHR 0x5C \<notin> set pat
      \<and> CHR ''['' \<notin> set pat)"

definition re_compile_ignorecase ::
    "(string \<Rightarrow> re_error + (string \<Rightarrow> bool)) \<Rightarrow> string \<Rightarrow> re_error + (string \<Rightarrow> bool)" where
  "re_compile_ignorecase other pat =
     (if list_all (\<lambda>c. c = CHR ''.'' \<or> plain_char c) pat then Inr (re_search pat)
      else if unclosed_group pat then Inl ReError
      else other pat)"

text \<open>Line 256: the rows of \<^verbatim>\<open>all_books\<close> whose author cell matches; \<^verbatim>\<open>na=False\<close>
  makes a missing cell a non-match.\<close>

definition narrowed_author ::
    "(string \<Rightarrow> re_error + (string \<Rightarrow> bool)) \<Rightarrow> string \<Rightarrow> ('g, 'c) book list \<Rightarrow>
     re_error + ('g, 'c) book list" where
  "narrowed_author other author books =
     (case re_compile_ignorecase other author of
        Inl e \<Rightarrow> Inl e
      | Inr found \<Rightarrow>
          Inr (filter (\<lambda>r. case authors r of None \<Rightarrow> False | Some s \<Rightarrow> found s) books))"

definition narrowed_genre :: "string \<Rightarrow> ('g, 'c) book list \<Rightarrow> ('g, 'c) book list" where
  "narrowed_genre genre books = filter (\<lambda>r. categories r = genre) books"

text \<open>
  One run of section 7 of the script: the choice of the first select box, the text of
  the author box or the chosen genre, the page option and the number of recommendations;
  the outcome is the sequence of books shown, or the error raised.
\<close>

datatype author_or_genre = Blank | Author | Genre

inductive recommend ::
    "(string \<Rightarrow> re_error + (string \<Rightarrow> bool)) \<Rightarrow> author_or_genre \<Rightarrow> string \<Rightarrow> pages \<Rightarrow> nat \<Rightarrow>
     ('g, 'c) book list \<Rightarrow> script_error + ('g, 'c) book list \<Rightarrow> bool" where
  by_author_error:
  "narrowed_author other author books = Inl e \<Longrightarrow>
   recommend other Author author pages number_rec books (Inl RegexError)"
| by_author:
  "narrowed_author other author books = Inr narrowed \<Longrightarrow>
   narrowed_general pages number_rec narrowed author outcome \<Longrightarrow>
   recommend other Author author pages number_rec books outcome"
| by_genre:
  "narrowed_general pages number_rec (narrowed_genre genre books) genre outcome \<Longrightarrow>
   recommend other Genre genre pages number_rec books outcome"
| blank:
  "recommend other Blank input pages number_rec books (Inr [])"

section \<open>What the specification says of rounding and of author matching\<close>

text \<open>
  The rounding policy as the specification words it: the nearest integer, a tie going
  to the even neighbour.
\<close>

definition spec_nearest_ties_even :: "real \<Rightarrow> int \<Rightarrow> bool" where
  "spec_nearest_ties_even x k =
     (\<bar>x - of_int k\<bar> \<le> 1/2 \<and> (\<bar>x - of_int k\<bar> = 1/2 \<longrightarrow> even k))"

text \<open>
  Author matching as the specification words it: the query occurs in the authors field
  as a substring, the case of the letters ignored.
\<close>

definition spec_ci_substring :: "string \<Rightarrow> string \<Rightarrow> bool" where
  "spec_ci_substring query field = sublist (map ascii_lower query) (map ascii_lower field)"

section \<open>Example tables\<close>

text \<open>
  Small tables on which the results below are run. Their rows have no further columns
  (\<open>g_other\<close> and \<open>c_other\<close> are the unit).
\<close>

definition g_row :: "string \<Rightarrow> string \<Rightarrow> real \<Rightarrow> int \<Rightarrow> int \<Rightarrow> unit goodreads_csv" where
  "g_row i a rating cnt pg =
     \<lparr>g_isbn10 = i, g_authors = a, g_average_rating = Some rating,
      g_ratings_count = Some cnt, g_num_pages = Some pg, g_other = ()\<rparr>"

text \<open>A row whose cell of \<^verbatim>\<open>average_rating\<close> is empty.\<close>

definition g_row_unrated :: "string \<Rightarrow> string \<Rightarrow> int \<Rightarrow> int \<Rightarrow> unit goodreads_csv" where
  "g_row_unrated i a cnt pg =
     \<lparr>g_isbn10 = i, g_authors = a, g_average_rating = None,
      g_ratings_count = Some cnt, g_num_pages = Some pg, g_other = ()\<rparr>"

definition c_row :: "string \<Rightarrow> string \<Rightarrow> unit categories_csv" where
  "c_row i c = \<lparr>c_isbn10 = i, c_categories = c, c_other = ()\<rparr>"

text \<open>
  Seven books and seven category rows. Book 0007 has no category row and category row
  0009 no book; the genre of book 0006 occurs once; book 0005 has an empty author cell;
  the other five genres are folded into \<^verbatim>\<open>Humor\<close>.
\<close>

definition ex_goodreads :: "unit goodreads_csv list" where
  "ex_goodreads =
     [g_row ''0001'' ''J.K. Rowling'' (9/2) 0 250,
      g_row ''0002'' ''Jane Austen'' (7/2) 4 320,
      g_row ''0003'' ''Mark Twain'' 5 8 280,
      g_row ''0004'' ''Jane Doe'' 3 12 600,
      g_row ''0005'' '''' 4 16 200,
      g_row ''0006'' ''Solo Writer'' 2 100 100,
      g_row ''0007'' ''No Category'' 5 1000 100]"

definition ex_categories :: "unit categories_csv list" where
  "ex_categories =
     [c_row ''0001'' ''Comedy'',
      c_row ''0002'' ''Humor'',
      c_row ''0003'' ''Humorous fiction'',
      c_row ''0004'' ''Humor'',
      c_row ''0005'' ''Humor'',
      c_row ''0006'' ''Rare'',
      c_row ''0009'' ''Humor'']"

text \<open>The table \<^verbatim>\<open>all_books\<close> they give: five books of the genre \<^verbatim>\<open>Humor\<close>.\<close>

definition ex_book ::
    "string \<Rightarrow> string option \<Rightarrow> real \<Rightarrow> int \<Rightarrow> int \<Rightarrow> fl \<Rightarrow> int \<Rightarrow> (unit, unit) book" where
  "ex_book i a rating cnt pg b rd =
     \<lparr>isbn10 = Some i, authors = a, average_rating = Some rating, ratings_count = cnt,
      num_pages = pg, categories = ''Humor'', goodreads_other = (), categories_other = (),
      genre_frequency = 5, bayes_average = b, rounded_rating = Some rd\<rparr>"

definition ex_b1 :: "(unit, unit) book" where
  "ex_b1 = ex_book ''0001'' (Some ''J.K. Rowling'') (9/2) 0 250 (Fin 4) 4"

definition ex_b2 :: "(unit, unit) book" where
  "ex_b2 = ex_book ''0002'' (Some ''Jane Austen'') (7/2) 4 320 (Fin (15/4)) 4"

definition ex_b3 :: "(unit, unit) book" where
  "ex_b3 = ex_book ''0003'' (Some ''Mark Twain'') 5 8 280 (Fin (14/3)) 5"

definition ex_b4 :: "(unit, unit) book" where
  "ex_b4 = ex_book ''0004'' (Some ''Jane Doe'') 3 12 600 (Fin (13/4)) 3"

definition ex_b5 :: "(unit, unit) book" where
  "ex_b5 = ex_book ''0005'' None 4 16 200 (Fin 4) 4"

definition ex_books :: "(unit, unit) book list" where
  "ex_books = [ex_b1, ex_b2, ex_b3, ex_b4, ex_b5]"








text \<open>
  Six books of one genre, their numbers of ratings in no order; the fourth has an empty
  rating cell and no ratings, the second a rating and no ratings. The percentile C of
  their table is 1 (a quarter of the way from 0 to 4) and the mean m of the five
  ratings present is 4.
\<close>

definition ex_mixed_goodreads :: "unit goodreads_csv list" where
  "ex_mixed_goodreads =
     [g_row ''0001'' ''J.K. Rowling'' (9/2) 12 250,
      g_row ''0002'' ''Jane Austen'' (7/2) 0 320,
      g_row ''0003'' ''Mark Twain'' 5 8 280,
      g_row_unrated ''0004'' ''Jane Doe'' 0 600,
      g_row ''0005'' [] 3 16 200,
      g_row ''0006'' ''Solo Writer'' 4 4 100]"

definition ex_mixed_categories :: "unit categories_csv list" where
  "ex_mixed_categories =
     [c_row ''0001'' ''Comedy'',
      c_row ''0002'' ''Humor'',
      c_row ''0003'' ''Humorous fiction'',
      c_row ''0004'' ''Humor'',
      c_row ''0005'' ''Humor'',
      c_row ''0006'' ''Humor'']"

definition ex_m1 :: "(unit, unit) book" where
  "ex_m1 = (ex_book ''0001'' (Some ''J.K. Rowling'') (9/2) 12 250 (Fin (58/13)) 4)
             \<lparr>genre_frequency := 6\<rparr>"

definition ex_m2 :: "(unit, unit) book" where
  "ex_m2 = (ex_book ''0002'' (Some ''Jane Austen'') (7/2) 0 320 (Fin 4) 4)
             \<lparr>genre_frequency := 6\<rparr>"

definition ex_m3 :: "(unit, unit) book" where
  "ex_m3 = (ex_book ''0003'' (Some ''Mark Twain'') 5 8 280 (Fin (44/9)) 5)
             \<lparr>genre_frequency := 6\<rparr>"

definition ex_m4 :: "(unit, unit) book" where
  "ex_m4 =
     \<lparr>isbn10 = Some ''0004'', authors = Some ''Jane Doe'', average_rating = None,
      ratings_count = 0, num_pages = 600, categories = ''Humor'', goodreads_other = (),
      categories_other = (), genre_frequency = 6, bayes_average = NaN,
      rounded_rating = None\<rparr>"

definition ex_m5 :: "(unit, unit) book" where
  "ex_m5 = (ex_book ''0005'' None 3 16 200 (Fin (52/17)) 3)\<lparr>genre_frequency := 6\<rparr>"

definition ex_m6 :: "(unit, unit) book" where
  "ex_m6 = (ex_book ''0006'' (Some ''Solo Writer'') 4 4 100 (Fin 4) 4)
             \<lparr>genre_frequency := 6\<rparr>"

definition ex_mixed_books :: "(unit, unit) book list" where
  "ex_mixed_books = [ex_m1, ex_m2, ex_m3, ex_m4, ex_m5, ex_m6]"

text \<open>The five books again, the first with an average rating of 7 in its cell.\<close>

definition ex_high_goodreads :: "unit goodreads_csv list" where
  "ex_high_goodreads =
     [g_row ''0001'' ''J.K. Rowling'' 7 0 250,
      g_row ''0002'' ''Jane Austen'' (7/2) 4 320,
      g_row ''0003'' ''Mark Twain'' 5 8 280,
      g_row ''0004'' ''Jane Doe'' 3 12 600,
      g_row ''0005'' '''' 4 16 200]"

text \<open>
  A stand-in for the regular-expression parameter: it rejects every expression it is
  asked about. The expressions of the examples are read without it.
\<close>

definition reject_other :: "string \<Rightarrow> re_error + (string \<Rightarrow> bool)" where
  "reject_other pat = Inl ReError"


section \<open>The genre table\<close>

lemma similar_genre_range:
  "(k, v) \<in> set similar_genre \<Longrightarrow>
   v \<in> {''Biography & Autobiography'', ''Political Science'', ''Literary Criticism'',
        ''Juvenile Fiction'', ''Humor'', ''Detective and mystery stories''}"
  by (auto simp add: similar_genre_def)

lemma similar_genre_values:
  "(k, v) \<in> set similar_genre \<Longrightarrow> map_of similar_genre v = None"
proof -
  assume "(k, v) \<in> set similar_genre"
  then have "v \<in> {''Biography & Autobiography'', ''Political Science'', ''Literary Criticism'',
        ''Juvenile Fiction'', ''Humor'', ''Detective and mystery stories''}"
    by (rule similar_genre_range)
  moreover have "map_of similar_genre ''Biography & Autobiography'' = None"
    by (simp add: similar_genre_def)
  moreover have "map_of similar_genre ''Political Science'' = None"
    by (simp add: similar_genre_def)
  moreover have "map_of similar_genre ''Literary Criticism'' = None"
    by (simp add: similar_genre_def)
  moreover have "map_of similar_genre ''Juvenile Fiction'' = None"
    by (simp add: similar_genre_def)
  moreover have "map_of similar_genre ''Humor'' = None"
    by (simp add: similar_genre_def)
  moreover have "map_of similar_genre ''Detective and mystery stories'' = None"
    by (simp add: similar_genre_def)
  ultimately show ?thesis by blast
qed

lemma replace_genre_idem: "replace_genre (replace_genre s) = replace_genre s"
proof (cases "map_of similar_genre s")
  case None
  then show ?thesis by (simp add: replace_genre_def)
next
  case (Some v)
  then have "(s, v) \<in> set similar_genre" by (rule map_of_SomeD)
  then have "map_of similar_genre v = None" by (rule similar_genre_values)
  with Some show ?thesis by (simp add: replace_genre_def)
qed

lemma replace_genre_canonical:
  "(k, v) \<in> set similar_genre \<Longrightarrow> replace_genre v = v"
  by (simp add: replace_genre_def similar_genre_values)

text \<open>
  Claim C7. The genre normalizer is idempotent: replacing twice gives what replacing
  once gives, on a label and on the whole column; every canonical label (a value of
  the table) is replaced by itself, and a label that is no key of the table passes
  through unchanged.
\<close>

theorem genre_normalizer_idempotent:
  "replace_genre (replace_genre s) = replace_genre s
   \<and> replace_categories (replace_categories rows) = replace_categories rows
   \<and> (\<forall>kv \<in> set similar_genre. replace_genre (snd kv) = snd kv)
   \<and> (map_of similar_genre s = None \<longrightarrow> replace_genre s = s)"
proof (intro conjI)
  show "replace_genre (replace_genre s) = replace_genre s" by (rule replace_genre_idem)
  show "replace_categories (replace_categories rows) = replace_categories rows"
    by (simp add: replace_categories_def replace_genre_idem)
  show "\<forall>kv \<in> set similar_genre. replace_genre (snd kv) = snd kv"
    using replace_genre_canonical by auto
  show "map_of similar_genre s = None \<longrightarrow> replace_genre s = s"
    by (simp add: replace_genre_def)
qed

theorem genre_normalizer_idempotent_witness:
  "map_of similar_genre ''Fiction'' = None \<and> replace_genre ''Fiction'' = ''Fiction''
   \<and> (''Comedy'', ''Humor'') \<in> set similar_genre \<and> replace_genre ''Humor'' = ''Humor''
   \<and> replace_genre ''Comedy'' = ''Humor''
   \<and> replace_genre (replace_genre ''Comedy'') = replace_genre ''Comedy''"
proof -
  have a: "map_of similar_genre ''Fiction'' = None" by (simp add: similar_genre_def)
  have b: "(''Comedy'', ''Humor'') \<in> set similar_genre" by (simp add: similar_genre_def)
  have c: "replace_genre ''Comedy'' = ''Humor''" by (simp add: replace_genre_def similar_genre_def)
  note t1 = genre_normalizer_idempotent [of "''Fiction''" "[]"]
  note t2 = genre_normalizer_idempotent [of "''Comedy''" "[]"]
  from t1 a have d: "replace_genre ''Fiction'' = ''Fiction''" by blast
  from t1 b have e: "replace_genre ''Humor'' = ''Humor''" by force
  from t2 have f: "replace_genre (replace_genre ''Comedy'') = replace_genre ''Comedy''" by blast
  from a b c d e f show ?thesis by blast
qed

section \<open>The cells of the examples\<close>

lemma read_cell_simps:
  "read_cell '''' = None"
  "read_cell ''NA'' = None"
  "read_cell ''0001'' = Some ''0001''"
  "read_cell ''0002'' = Some ''0002''"
  "read_cell ''0003'' = Some ''0003''"
  "read_cell ''0004'' = Some ''0004''"
  "read_cell ''0005'' = Some ''0005''"
  "read_cell ''0006'' = Some ''0006''"
  "read_cell ''0007'' = Some ''0007''"
  "read_cell ''0009'' = Some ''0009''"
  "read_cell ''J.K. Rowling'' = Some ''J.K. Rowling''"
  "read_cell ''Jane Austen'' = Some ''Jane Austen''"
  "read_cell ''Mark Twain'' = Some ''Mark Twain''"
  "read_cell ''Jane Doe'' = Some ''Jane Doe''"
  "read_cell ''Solo Writer'' = Some ''Solo Writer''"
  "read_cell ''No Category'' = Some ''No Category''"
  "read_cell ''Comedy'' = Some ''Comedy''"
  "read_cell ''Humor'' = Some ''Humor''"
  "read_cell ''Humorous fiction'' = Some ''Humorous fiction''"
  "read_cell ''Rare'' = Some ''Rare''"
  by (simp_all add: read_cell_def na_values_def)

lemma replace_genre_simps:
  "replace_genre ''Comedy'' = ''Humor''"
  "replace_genre ''Humor'' = ''Humor''"
  "replace_genre ''Humorous fiction'' = ''Humor''"
  "replace_genre ''Rare'' = ''Rare''"
  by (simp_all add: replace_genre_def similar_genre_def)

section \<open>The merge\<close>











section \<open>The pipeline\<close>

lemma those_Some_map: "those xs = Some ys \<Longrightarrow> xs = map Some ys"
proof (induction xs arbitrary: ys)
  case Nil
  then show ?case by simp
next
  case (Cons x xs)
  then show ?case by (auto split: option.splits)
qed

lemma astype_str_nonempty: "astype_str (read_cell s) \<noteq> []"
  by (auto simp add: astype_str_def read_cell_def na_values_def)

lemma replace_genre_nonempty: "s \<noteq> [] \<Longrightarrow> replace_genre s \<noteq> []"
proof (cases "map_of similar_genre s")
  case None
  assume "s \<noteq> []"
  with None show ?thesis by (simp add: replace_genre_def)
next
  case (Some v)
  then have "(s, v) \<in> set similar_genre" by (rule map_of_SomeD)
  then have "v \<noteq> []" using similar_genre_range by fastforce
  with Some show ?thesis by (simp add: replace_genre_def)
qed

lemma cast_row_categories:
  "cast_row gc = Some r \<Longrightarrow> categories r = astype_str (read_cell (c_categories (snd gc)))"
  by (auto simp add: cast_row_def split: option.splits)

lemma astype_columns_categories:
  assumes "astype_columns merged = Inr rows" and "r \<in> set rows"
  shows "categories r \<noteq> []"
proof -
  from assms(1) have "those (map cast_row merged) = Some rows"
    by (simp add: astype_columns_def split: option.splits)
  then have "map cast_row merged = map Some rows" by (rule those_Some_map)
  with assms(2) have "Some r \<in> set (map cast_row merged)" by simp
  then obtain gc where "cast_row gc = Some r" by auto
  then show ?thesis by (simp add: cast_row_categories astype_str_nonempty)
qed

lemma replace_categories_nonempty:
  assumes "\<And>r. r \<in> set rows \<Longrightarrow> categories r \<noteq> []"
  shows "c \<in> set (map categories (replace_categories rows)) \<Longrightarrow> c \<noteq> []"
  using assms by (auto simp add: replace_categories_def replace_genre_nonempty)

lemma count_items_lookup:
  "count_items f xs c =
     (if c \<in> set xs
      then Some (count_list xs c + (case f c of None \<Rightarrow> 0 | Some n \<Rightarrow> n))
      else f c)"
proof (induction xs arbitrary: f)
  case Nil
  show ?case by simp
next
  case (Cons x xs)
  show ?case by (simp add: Cons.IH split: option.splits)
qed

lemma frequency_counts:
  "frequency rows c =
     (if c \<in> set (map categories rows) then Some (count_list (map categories rows) c) else None)"
  by (simp add: frequency_def count_items_lookup)

lemma genre_frequency_map_frequency:
  "r \<in> set rows \<Longrightarrow>
   genre_frequency (map_frequency (frequency rows) r) = count_list (map categories rows) (categories r)"
  by (simp add: map_frequency_def frequency_counts)

lemma categories_map_frequency: "categories (map_frequency freq r) = categories r"
  by (simp add: map_frequency_def)

lemma frequency_filter_member:
  assumes "f \<in> set (frequency_filter rows)"
  shows "genre_frequency f \<ge> 5 \<and> categories f \<noteq> ''nan''
         \<and> categories f \<in> set (map categories rows)
         \<and> genre_frequency f = count_list (map categories rows) (categories f)"
proof -
  from assms obtain r where r: "r \<in> set rows" and f: "f = map_frequency (frequency rows) r"
    and g: "genre_frequency f \<ge> 5" and n: "categories f \<noteq> ''nan''"
    by (auto simp add: frequency_filter_def)
  from r f have "genre_frequency f = count_list (map categories rows) (categories f)"
    by (simp add: genre_frequency_map_frequency categories_map_frequency)
  moreover from r f have "categories f \<in> set (map categories rows)"
    by (simp add: categories_map_frequency)
  ultimately show ?thesis using g n by simp
qed

lemma frequency_filter_count:
  assumes "f \<in> set (frequency_filter rows)"
  shows "length (filter (\<lambda>x. categories x = categories f) (frequency_filter rows)) =
         genre_frequency f"
proof -
  let ?c = "categories f"
  from frequency_filter_member [OF assms]
  have g: "genre_frequency f \<ge> 5" and n: "?c \<noteq> ''nan''"
    and cnt: "genre_frequency f = count_list (map categories rows) ?c"
    by simp_all
  have keep: "\<And>r. r \<in> set rows \<Longrightarrow> categories r = ?c \<Longrightarrow>
      genre_frequency (map_frequency (frequency rows) r) \<ge> 5
      \<and> categories (map_frequency (frequency rows) r) \<noteq> ''nan''"
    using g n cnt by (simp add: genre_frequency_map_frequency categories_map_frequency)
  have "filter (\<lambda>x. categories x = ?c) (frequency_filter rows) =
        map (map_frequency (frequency rows)) (filter (\<lambda>r. categories r = ?c) rows)"
    unfolding frequency_filter_def filter_filter filter_map comp_def
    by (rule arg_cong [where f = "map (map_frequency (frequency rows))"], rule filter_cong)
       (auto simp add: categories_map_frequency dest: keep)
  then have "length (filter (\<lambda>x. categories x = ?c) (frequency_filter rows)) =
             length (filter (\<lambda>r. categories r = ?c) rows)"
    by simp
  also have "\<dots> = count_list (map categories rows) ?c"
    by (induction rows) auto
  finally show ?thesis using cnt by simp
qed

lemma score_columns:
  "map categories (score rows) = map categories rows"
  "map genre_frequency (score rows) = map genre_frequency rows"
  "map ratings_count (score rows) = map ratings_count rows"
  "map average_rating (score rows) = map average_rating rows"
  "map authors (score rows) = map authors rows"
  "map num_pages (score rows) = map num_pages rows"
  by (simp_all add: score_def Let_def comp_def)

lemma score_member:
  assumes "b \<in> set (score rows)"
  shows "\<exists>f \<in> set rows. categories b = categories f \<and> genre_frequency b = genre_frequency f
           \<and> average_rating b = average_rating f \<and> ratings_count b = ratings_count f
           \<and> bayes_average b =
               bayes (quantile (1/4) (map ratings_count rows)) (mean (map average_rating rows))
                 (average_rating f) (ratings_count f)
           \<and> rounded_rating b = map_option round_half_even (average_rating f)"
  using assms by (auto simp add: score_def Let_def)

lemma score_filter_categories:
  "length (filter (\<lambda>x. categories x = c) (score rows)) =
   length (filter (\<lambda>x. categories x = c) rows)"
  by (simp add: score_def Let_def filter_map comp_def)

lemma all_books_Inr:
  assumes "all_books gs cs = Inr ab"
  obtains rows where "astype_columns (merge gs cs) = Inr rows"
    and "ab = score (frequency_filter (replace_categories rows))"
  using assms by (auto simp add: all_books_def split: sum.splits)

lemma all_books_member:
  assumes "all_books gs cs = Inr ab" and "r \<in> set ab"
  shows "5 \<le> genre_frequency r \<and> categories r \<noteq> ''nan'' \<and> categories r \<noteq> []
         \<and> genre_frequency r = length (filter (\<lambda>x. categories x = categories r) ab)"
proof -
  from assms(1) obtain rows where rows: "astype_columns (merge gs cs) = Inr rows"
    and ab: "ab = score (frequency_filter (replace_categories rows))"
    by (rule all_books_Inr)
  let ?fs = "frequency_filter (replace_categories rows)"
  from assms(2) ab obtain f where f: "f \<in> set ?fs" and c: "categories r = categories f"
    and g: "genre_frequency r = genre_frequency f"
    using score_member by blast
  note m = frequency_filter_member [OF f]
  have "categories f \<noteq> []"
    using m rows astype_columns_categories replace_categories_nonempty by blast
  moreover have "length (filter (\<lambda>x. categories x = categories r) ab) = genre_frequency f"
    using frequency_filter_count [OF f] by (simp add: ab c score_filter_categories)
  ultimately show ?thesis using m c g by simp
qed

lemma all_books_score:
  assumes "all_books gs cs = Inr ab" and "r \<in> set ab"
  shows "bayes_average r =
           bayes (quantile (1/4) (map ratings_count ab)) (mean (map average_rating ab))
             (average_rating r) (ratings_count r)
         \<and> rounded_rating r = map_option round_half_even (average_rating r)"
proof -
  from assms(1) obtain rows where
    ab: "ab = score (frequency_filter (replace_categories rows))"
    by (rule all_books_Inr)
  from assms(2) show ?thesis
    unfolding ab score_columns using score_member by fastforce
qed

text \<open>
  The quantile of order 1/4 written out: with n values in ascending order, it lies
  ((n - 1) mod 4) / 4 of the way from the value of rank (n - 1) div 4 to the next one.
\<close>

lemma quantile_quarter:
  assumes "xs \<noteq> []"
  shows "quantile (1/4) xs =
     Some (real_of_int (sort xs ! ((length xs - 1) div 4))
           + (real_of_int (sort xs ! min ((length xs - 1) div 4 + 1) (length xs - 1))
              - real_of_int (sort xs ! ((length xs - 1) div 4)))
             * (real ((length xs - 1) mod 4) / 4))"
proof -
  let ?n = "length xs - Suc 0"
  have split: "real ?n = 4 * real (?n div 4) + real (?n mod 4)"
    by (metis mult_div_mod_eq of_nat_add of_nat_mult of_nat_numeral)
  have "\<lfloor>real ?n / real 4\<rfloor> = int (?n div 4)"
    by (rule floor_divide_of_nat_eq)
  then have fl: "\<lfloor>real ?n / 4\<rfloor> = int (?n div 4)" by simp
  have frac: "real ?n / 4 - real (?n div 4) = real (?n mod 4) / 4"
    using split by linarith
  have "quantile (1/4) xs =
     Some (real_of_int (sort xs ! nat \<lfloor>real ?n / 4\<rfloor>)
           + (real_of_int (sort xs ! min (nat \<lfloor>real ?n / 4\<rfloor> + 1) ?n)
              - real_of_int (sort xs ! nat \<lfloor>real ?n / 4\<rfloor>))
             * (real ?n / 4 - real (nat \<lfloor>real ?n / 4\<rfloor>)))"
    using assms by (simp add: quantile_def Let_def)
  also have "\<dots> =
     Some (real_of_int (sort xs ! (?n div 4))
           + (real_of_int (sort xs ! min (?n div 4 + 1) ?n)
              - real_of_int (sort xs ! (?n div 4)))
             * (real (?n mod 4) / 4))"
    unfolding fl nat_int frac ..
  finally show ?thesis by simp
qed

lemma mean_rated:
  "mean xs =
     (if [a. Some a \<leftarrow> xs] = [] then None
      else Some (sum_list [a. Some a \<leftarrow> xs] / real (length [a. Some a \<leftarrow> xs])))"
  by (simp add: mean_def Let_def)

lemma rated_member:
  "x \<in> set xs \<Longrightarrow> x = Some a \<Longrightarrow> [a. Some a \<leftarrow> xs] \<noteq> []"
  by (induction xs) (auto split: option.splits)

lemma rated_all: "[a. Some a \<leftarrow> map Some xs] = xs"
  by (induction xs) auto

subsection \<open>The pipeline on the examples\<close>

lemma ex_mixed_all_books:
  "all_books ex_mixed_goodreads ex_mixed_categories = Inr ex_mixed_books"
  by (simp add: all_books_def astype_columns_def merge_def ex_mixed_goodreads_def
      ex_mixed_categories_def g_row_def g_row_unrated_def c_row_def cast_row_def
      astype_str_def read_cell_simps replace_categories_def replace_genre_simps
      frequency_filter_def frequency_def map_frequency_def score_def quantile_def mean_def
      bayes_def fdiv_def round_half_even_def ex_mixed_books_def ex_book_def Let_def
      ex_m1_def ex_m2_def ex_m3_def ex_m4_def ex_m5_def ex_m6_def)

lemma ex_mixed_counts:
  "map ratings_count ex_mixed_books = [12, 0, 8, 0, 16, 4]"
  "sort (map ratings_count ex_mixed_books) = [0, 0, 4, 8, 12, 16]"
  by (simp_all add: ex_mixed_books_def ex_book_def
      ex_m1_def ex_m2_def ex_m3_def ex_m4_def ex_m5_def ex_m6_def)

lemma ex_mixed_ratings:
  "map average_rating ex_mixed_books = [Some (9/2), Some (7/2), Some 5, None, Some 3, Some 4]"
  "[a. Some a \<leftarrow> map average_rating ex_mixed_books] = [9/2, 7/2, 5, 3, 4]"
  by (simp_all add: ex_mixed_books_def ex_book_def
      ex_m1_def ex_m2_def ex_m3_def ex_m4_def ex_m5_def ex_m6_def)

lemma ex_mixed_quantile: "quantile (1/4) (map ratings_count ex_mixed_books) = Some 1"
  by (simp add: quantile_def ex_mixed_counts Let_def)

lemma ex_mixed_mean: "mean (map average_rating ex_mixed_books) = Some 4"
  by (simp add: mean_def ex_mixed_ratings)

lemma ex_all_books: "all_books ex_goodreads ex_categories = Inr ex_books"
  by (simp add: all_books_def astype_columns_def merge_def ex_goodreads_def ex_categories_def
      g_row_def c_row_def cast_row_def astype_str_def read_cell_simps
      replace_categories_def replace_genre_simps
      frequency_filter_def frequency_def map_frequency_def score_def quantile_def mean_def
      bayes_def fdiv_def round_half_even_def ex_books_def ex_book_def Let_def
      ex_b1_def ex_b2_def ex_b3_def ex_b4_def ex_b5_def)


lemma ex_quantile: "quantile (1/4) (map ratings_count ex_books) = Some 4"
  by (simp add: quantile_def ex_books_def ex_book_def Let_def
      ex_b1_def ex_b2_def ex_b3_def ex_b4_def ex_b5_def)

lemma ex_mean: "mean (map average_rating ex_books) = Some 4"
  by (simp add: mean_def ex_books_def ex_book_def
      ex_b1_def ex_b2_def ex_b3_def ex_b4_def ex_b5_def)

lemma ex_keys:
  "bayes_average ex_b1 = Fin 4" "bayes_average ex_b2 = Fin (15/4)"
  "bayes_average ex_b3 = Fin (14/3)" "bayes_average ex_b4 = Fin (13/4)"
  "bayes_average ex_b5 = Fin 4"
  by (simp_all add: ex_b1_def ex_b2_def ex_b3_def ex_b4_def ex_b5_def ex_book_def)

lemma ex_pages:
  "num_pages ex_b1 = 250" "num_pages ex_b2 = 320" "num_pages ex_b3 = 280"
  "num_pages ex_b4 = 600" "num_pages ex_b5 = 200"
  by (simp_all add: ex_b1_def ex_b2_def ex_b3_def ex_b4_def ex_b5_def ex_book_def)

lemma ex_categories_Humor:
  "categories ex_b1 = ''Humor''" "categories ex_b2 = ''Humor''" "categories ex_b3 = ''Humor''"
  "categories ex_b4 = ''Humor''" "categories ex_b5 = ''Humor''"
  by (simp_all add: ex_b1_def ex_b2_def ex_b3_def ex_b4_def ex_b5_def ex_book_def)

lemma ex_authors:
  "authors ex_b1 = Some ''J.K. Rowling''" "authors ex_b2 = Some ''Jane Austen''"
  "authors ex_b3 = Some ''Mark Twain''" "authors ex_b4 = Some ''Jane Doe''"
  "authors ex_b5 = None"
  by (simp_all add: ex_b1_def ex_b2_def ex_b3_def ex_b4_def ex_b5_def ex_book_def)

section \<open>Sorting and the queries\<close>

lemma fl_le_total: "x \<noteq> NaN \<Longrightarrow> y \<noteq> NaN \<Longrightarrow> fl_le x y \<or> fl_le y x"
  by (cases x; cases y; auto)

lemma fl_le_trans: "fl_le x y \<Longrightarrow> fl_le y z \<Longrightarrow> fl_le x z"
  by (cases x; cases y; cases z; simp)

lemma sorted_rearrangement_exists:
  assumes "\<And>a b. a \<in> set xs \<Longrightarrow> b \<in> set xs \<Longrightarrow> R a b \<or> R b a"
    and "\<And>a b c. R a b \<Longrightarrow> R b c \<Longrightarrow> R a c"
  shows "\<exists>zs. mset zs = mset xs \<and> sorted_wrt R zs"
  using assms(1)
proof (induction xs)
  case Nil
  show ?case by simp
next
  case (Cons x xs)
  then obtain zs where zs: "mset zs = mset xs" "sorted_wrt R zs" by auto
  from zs(1) have sets: "set zs = set xs" by (rule mset_eq_setD)
  let ?zs' = "filter (\<lambda>y. \<not> R x y) zs @ x # filter (\<lambda>y. R x y) zs"
  have "mset ?zs' = mset (x # xs)" using zs(1) by simp
  moreover have "sorted_wrt R ?zs'"
  proof -
    have before: "\<And>a. a \<in> set zs \<Longrightarrow> \<not> R x a \<Longrightarrow> R a x"
      using Cons.prems [of x] sets by auto
    have cross: "\<And>a b. a \<in> set zs \<Longrightarrow> \<not> R x a \<Longrightarrow> R x b \<Longrightarrow> R a b"
      using before assms(2) by blast
    show ?thesis
      using zs(2) before cross by (auto simp add: sorted_wrt_append sorted_wrt_filter)
  qed
  ultimately show ?case by blast
qed

lemma sort_values_total: "\<exists>sorted_df. sort_values df sorted_df"
proof -
  let ?xs = "rev (filter (\<lambda>r. bayes_average r \<noteq> NaN) df)"
  have "\<exists>zs. mset zs = mset ?xs
          \<and> sorted_wrt (\<lambda>a b. fl_le (bayes_average a) (bayes_average b)) zs"
  proof (rule sorted_rearrangement_exists)
    fix a b :: "('a, 'b) book"
    assume "a \<in> set ?xs" and "b \<in> set ?xs"
    then have "bayes_average a \<noteq> NaN" and "bayes_average b \<noteq> NaN" by auto
    then show "fl_le (bayes_average a) (bayes_average b) \<or> fl_le (bayes_average b) (bayes_average a)"
      by (rule fl_le_total)
  next
    fix a b c :: "('a, 'b) book"
    assume "fl_le (bayes_average a) (bayes_average b)" and "fl_le (bayes_average b) (bayes_average c)"
    then show "fl_le (bayes_average a) (bayes_average c)" by (rule fl_le_trans)
  qed
  then show ?thesis using sort_valuesI by blast
qed

lemma sort_values_mset: "sort_values df sorted_df \<Longrightarrow> mset sorted_df = mset df"
proof (induction rule: sort_values.induct)
  case (sort_valuesI zs df)
  have "mset (rev zs @ filter (\<lambda>r. bayes_average r = NaN) df) =
        mset (filter (\<lambda>r. bayes_average r \<noteq> NaN) df) + mset (filter (\<lambda>r. bayes_average r = NaN) df)"
    using sort_valuesI(1) by simp
  also have "\<dots> = mset df"
    by (induction df) auto
  finally show ?case .
qed

lemma sort_values_set: "sort_values df sorted_df \<Longrightarrow> set sorted_df = set df"
  by (drule sort_values_mset) (rule mset_eq_setD)

lemma sort_values_intro:
  "sorted_df = rev zs @ filter (\<lambda>r. bayes_average r = NaN) df \<Longrightarrow>
   mset zs = mset (rev (filter (\<lambda>r. bayes_average r \<noteq> NaN) df)) \<Longrightarrow>
   sorted_wrt (\<lambda>a b. fl_le (bayes_average a) (bayes_average b)) zs \<Longrightarrow>
   sort_values df sorted_df"
  by (simp add: sort_valuesI)

lemma narrowed_general_iff:
  "narrowed_general pages number_rec narrowed_set user_input outcome \<longleftrightarrow>
   (\<exists>sorted_df. sort_values (narrowed_pages pages narrowed_set) sorted_df
      \<and> outcome =
          (if user_input = [] then Inr []
           else if list_ex (\<lambda>r. rounded_rating r = None) (take number_rec sorted_df)
             then Inl ValueError
           else Inr (take number_rec sorted_df)))"
  by (auto simp add: narrowed_general.simps)

lemma narrowed_general_intro:
  "sort_values (narrowed_pages pages narrowed_set) sorted_df \<Longrightarrow>
   outcome =
     (if user_input = [] then Inr []
      else if list_ex (\<lambda>r. rounded_rating r = None) (take number_rec sorted_df)
        then Inl ValueError
      else Inr (take number_rec sorted_df)) \<Longrightarrow>
   narrowed_general pages number_rec narrowed_set user_input outcome"
  unfolding narrowed_general_iff by blast

lemma narrowed_general_shown:
  assumes "narrowed_general pages number_rec narrowed_set user_input (Inr shown)"
  obtains sorted_df where "sort_values (narrowed_pages pages narrowed_set) sorted_df"
    and "shown = [] \<or> shown = take number_rec sorted_df"
  using assms unfolding narrowed_general_iff by (auto split: if_splits)

lemma narrowed_general_total:
  "\<exists>outcome. narrowed_general pages number_rec narrowed_set user_input outcome"
  using sort_values_total narrowed_general_iff by blast

lemma narrowed_general_empty_input:
  "narrowed_general pages number_rec narrowed_set [] outcome \<longleftrightarrow> outcome = Inr []"
  using sort_values_total by (auto simp add: narrowed_general_iff)

lemma narrowed_general_zero:
  "narrowed_general pages 0 narrowed_set user_input outcome \<longleftrightarrow> outcome = Inr []"
  using sort_values_total by (auto simp add: narrowed_general_iff)

lemma narrowed_general_length:
  assumes "narrowed_general pages number_rec narrowed_set user_input (Inr shown)"
  shows "length shown \<le> number_rec"
  using assms by (rule narrowed_general_shown) auto

lemma narrowed_pages_subset: "set (narrowed_pages pages narrowed_set) \<subseteq> set narrowed_set"
  by (cases pages) (auto simp add: narrowed_pages_def)

lemma narrowed_general_subset:
  assumes "narrowed_general pages number_rec narrowed_set user_input (Inr shown)"
  shows "set shown \<subseteq> set narrowed_set"
proof -
  from assms obtain sorted_df where s: "sort_values (narrowed_pages pages narrowed_set) sorted_df"
    and e: "shown = [] \<or> shown = take number_rec sorted_df"
    by (rule narrowed_general_shown)
  from e have "set shown \<subseteq> set sorted_df"
    by (auto dest: in_set_takeD)
  also have "\<dots> = set (narrowed_pages pages narrowed_set)"
    using s by (simp add: sort_values_set)
  also have "\<dots> \<subseteq> set narrowed_set" by (rule narrowed_pages_subset)
  finally show ?thesis .
qed

lemma narrowed_author_subset:
  "narrowed_author other author books = Inr narrowed \<Longrightarrow> set narrowed \<subseteq> set books"
  by (auto simp add: narrowed_author_def split: sum.splits)

lemma recommend_genre_iff:
  "recommend other Genre genre pages number_rec books outcome \<longleftrightarrow>
   narrowed_general pages number_rec (narrowed_genre genre books) genre outcome"
  by (auto simp add: recommend.simps)

lemma recommend_author_iff:
  "recommend other Author author pages number_rec books outcome \<longleftrightarrow>
   (case narrowed_author other author books of
      Inl e \<Rightarrow> outcome = Inl RegexError
    | Inr narrowed \<Rightarrow> narrowed_general pages number_rec narrowed author outcome)"
  by (auto simp add: recommend.simps split: sum.splits)

lemma recommend_blank_iff:
  "recommend other Blank input pages number_rec books outcome \<longleftrightarrow> outcome = Inr []"
  by (auto simp add: recommend.simps)

lemma recommend_total:
  "\<exists>outcome. recommend other choice input pages number_rec books outcome"
proof (cases choice)
  case Blank
  then show ?thesis by (simp add: recommend_blank_iff)
next
  case Author
  show ?thesis
  proof (cases "narrowed_author other input books")
    case (Inl e)
    with Author show ?thesis by (simp add: recommend_author_iff)
  next
    case (Inr narrowed)
    with Author show ?thesis
      using narrowed_general_total [of pages number_rec narrowed input]
      by (simp add: recommend_author_iff)
  qed
next
  case Genre
  then show ?thesis
    using narrowed_general_total by (simp add: recommend_genre_iff)
qed

lemma recommend_Inr_cases:
  assumes "recommend other choice input pages number_rec books (Inr shown)"
  obtains narrowed where "narrowed_general pages number_rec narrowed input (Inr shown)"
      and "set narrowed \<subseteq> set books"
    | "shown = []"
proof (cases choice)
  case Blank
  with assms have "shown = []" by (simp add: recommend_blank_iff)
  then show ?thesis by (rule that(2))
next
  case Author
  with assms obtain narrowed where "narrowed_author other input books = Inr narrowed"
    and "narrowed_general pages number_rec narrowed input (Inr shown)"
    by (auto simp add: recommend_author_iff split: sum.splits)
  then show ?thesis using that(1) narrowed_author_subset by blast
next
  case Genre
  with assms
  have "narrowed_general pages number_rec (narrowed_genre input books) input (Inr shown)"
    by (simp add: recommend_genre_iff)
  then show ?thesis
    using that(1) [of "narrowed_genre input books"] by (auto simp add: narrowed_genre_def)
qed

lemma recommend_subset:
  assumes "recommend other choice input pages number_rec books (Inr shown)"
  shows "set shown \<subseteq> set books"
  using assms
proof (rule recommend_Inr_cases)
  fix narrowed
  assume "narrowed_general pages number_rec narrowed input (Inr shown)"
    and "set narrowed \<subseteq> set books"
  then show ?thesis using narrowed_general_subset by blast
next
  assume "shown = []"
  then show ?thesis by simp
qed

lemma recommend_length:
  assumes "recommend other choice input pages number_rec books (Inr shown)"
  shows "length shown \<le> number_rec"
  using assms by (rule recommend_Inr_cases) (simp_all add: narrowed_general_length)

lemma sort_values_descending:
  assumes "sort_values df sorted_df"
  shows "sorted_wrt (\<lambda>a b. bayes_average b = NaN \<or> fl_ge (bayes_average a) (bayes_average b))
           sorted_df"
  using assms
proof (induction rule: sort_values.induct)
  case (sort_valuesI zs df)
  let ?P = "\<lambda>a b. bayes_average b = NaN \<or> fl_ge (bayes_average a) (bayes_average b)"
  have "sorted_wrt (\<lambda>a b. fl_ge (bayes_average a) (bayes_average b)) (rev zs)"
    using sort_valuesI(2) by (simp add: sorted_wrt_rev fl_ge_def)
  then have nums: "sorted_wrt ?P (rev zs)"
    by (rule sorted_wrt_mono_rel [rotated]) simp
  have nans: "sorted_wrt ?P (filter (\<lambda>r. bayes_average r = NaN) df)"
    by (rule sorted_wrt_mono_rel [where P = "\<lambda>a b. True"]) auto
  show ?case
    using nums nans by (auto simp add: sorted_wrt_append)
qed

lemma recommend_descending:
  assumes "recommend other choice input pages number_rec books (Inr shown)"
  shows "sorted_wrt (\<lambda>a b. bayes_average b = NaN \<or> fl_ge (bayes_average a) (bayes_average b))
           shown"
  using assms
proof (rule recommend_Inr_cases)
  fix narrowed
  assume "narrowed_general pages number_rec narrowed input (Inr shown)"
  then obtain sorted_df where s: "sort_values (narrowed_pages pages narrowed) sorted_df"
    and e: "shown = [] \<or> shown = take number_rec sorted_df"
    by (rule narrowed_general_shown)
  from s have "sorted_wrt (\<lambda>a b. bayes_average b = NaN \<or> fl_ge (bayes_average a) (bayes_average b))
      (take number_rec sorted_df)"
    by (intro sorted_wrt_take sort_values_descending)
  with e show ?thesis by auto
next
  assume "shown = []"
  then show ?thesis by simp
qed

subsection \<open>Queries on the examples\<close>

lemma ex_rounded:
  "rounded_rating ex_b1 = Some 4" "rounded_rating ex_b2 = Some 4"
  "rounded_rating ex_b3 = Some 5" "rounded_rating ex_b4 = Some 3"
  "rounded_rating ex_b5 = Some 4"
  by (simp_all add: ex_b1_def ex_b2_def ex_b3_def ex_b4_def ex_b5_def ex_book_def)

lemma ex_sort_under300:
  "sort_values (narrowed_pages Under300 (narrowed_genre ''Humor'' ex_books)) [ex_b3, ex_b1, ex_b5]"
proof -
  have n: "narrowed_pages Under300 (narrowed_genre ''Humor'' ex_books) = [ex_b1, ex_b3, ex_b5]"
    by (simp add: narrowed_pages_def narrowed_genre_def ex_books_def ex_pages ex_categories_Humor)
  show ?thesis
    unfolding n
    by (rule sort_values_intro [where zs = "[ex_b5, ex_b1, ex_b3]"]) (simp_all add: ex_keys)
qed

lemma ex_recommend_humor:
  "recommend reject_other Genre ''Humor'' Under300 2 ex_books (Inr [ex_b3, ex_b1])"
  by (rule by_genre, rule narrowed_general_intro, rule ex_sort_under300)
     (simp add: ex_rounded)

section \<open>The claims about the table\<close>

text \<open>
  Claim C2. Every record left by the frequency filter has a genre frequency of at least
  5 and a category that is neither empty nor the missing sentinel \<^verbatim>\<open>'nan'\<close>; the
  frequency is the number of records of the final table with that category. The same
  holds of every record a later query shows.
\<close>

theorem frequency_filter_postcondition:
  assumes "all_books gs cs = Inr ab"
  shows "(\<forall>r \<in> set ab.
            5 \<le> genre_frequency r \<and> categories r \<noteq> ''nan'' \<and> categories r \<noteq> []
            \<and> genre_frequency r = length (filter (\<lambda>x. categories x = categories r) ab))
       \<and> (\<forall>shown. recommend other choice input pages number_rec ab (Inr shown) \<longrightarrow>
            (\<forall>r \<in> set shown.
               5 \<le> genre_frequency r \<and> categories r \<noteq> ''nan'' \<and> categories r \<noteq> []))"
proof (rule conjI)
  show "\<forall>r \<in> set ab.
            5 \<le> genre_frequency r \<and> categories r \<noteq> ''nan'' \<and> categories r \<noteq> []
            \<and> genre_frequency r = length (filter (\<lambda>x. categories x = categories r) ab)"
    using assms all_books_member by blast
next
  show "\<forall>shown. recommend other choice input pages number_rec ab (Inr shown) \<longrightarrow>
            (\<forall>r \<in> set shown.
               5 \<le> genre_frequency r \<and> categories r \<noteq> ''nan'' \<and> categories r \<noteq> [])"
  proof (intro allI impI ballI)
    fix shown r
    assume "recommend other choice input pages number_rec ab (Inr shown)" and "r \<in> set shown"
    then have "r \<in> set ab" using recommend_subset by blast
    with assms show "5 \<le> genre_frequency r \<and> categories r \<noteq> ''nan'' \<and> categories r \<noteq> []"
      using all_books_member by blast
  qed
qed

theorem frequency_filter_postcondition_witness:
  "all_books ex_goodreads ex_categories = Inr ex_books
   \<and> ex_b3 \<in> set ex_books
   \<and> genre_frequency ex_b3 = 5 \<and> categories ex_b3 = ''Humor''
   \<and> 5 \<le> genre_frequency ex_b3 \<and> categories ex_b3 \<noteq> ''nan'' \<and> categories ex_b3 \<noteq> []
   \<and> genre_frequency ex_b3 = length (filter (\<lambda>x. categories x = categories ex_b3) ex_books)
   \<and> recommend reject_other Genre ''Humor'' Under300 2 ex_books (Inr [ex_b3, ex_b1])
   \<and> 5 \<le> genre_frequency ex_b1 \<and> categories ex_b1 \<noteq> ''nan'' \<and> categories ex_b1 \<noteq> []"
proof -
  note t = frequency_filter_postcondition [OF ex_all_books,
      of reject_other Genre "''Humor''" Under300 2]
  have m: "ex_b3 \<in> set ex_books" by (simp add: ex_books_def)
  have v: "genre_frequency ex_b3 = 5" "categories ex_b3 = ''Humor''"
    by (simp_all add: ex_b3_def ex_book_def)
  from t m have a: "5 \<le> genre_frequency ex_b3 \<and> categories ex_b3 \<noteq> ''nan'' \<and> categories ex_b3 \<noteq> []
      \<and> genre_frequency ex_b3 = length (filter (\<lambda>x. categories x = categories ex_b3) ex_books)"
    by blast
  from t ex_recommend_humor
  have b: "5 \<le> genre_frequency ex_b1 \<and> categories ex_b1 \<noteq> ''nan'' \<and> categories ex_b1 \<noteq> []"
    by (metis list.set_intros(1) list.set_intros(2))
  from ex_all_books m v a ex_recommend_humor b show ?thesis by blast
qed

text \<open>
  Claim C1. For every record of the table left by the frequency filter, the Bayesian
  average is (average_rating * ratings_count + C * m) / (ratings_count + C), the same C
  and m for every record. C is the 25th percentile of the column ratings_count of that
  table: with its n values in ascending order, the value ((n - 1) mod 4) / 4 of the way
  from the one of rank (n - 1) div 4 to the next. m is the arithmetic mean of its column
  average_rating: the sum of the ratings over their number, a missing rating being
  skipped, so the sum of all the ratings over the number of records when none is
  missing. The division is the float division, and the quotient is \<^verbatim>\<open>nan\<close> for a
  record whose rating is missing (then m is not used, also when no record has a
  rating).
\<close>

theorem bayes_average_formula:
  assumes "all_books gs cs = Inr ab"
  shows "let v = sort (map ratings_count ab);
             n = length ab;
             C = real_of_int (v ! ((n - 1) div 4))
                 + (real_of_int (v ! min ((n - 1) div 4 + 1) (n - 1))
                    - real_of_int (v ! ((n - 1) div 4)))
                   * (real ((n - 1) mod 4) / 4);
             rated = [a. Some a \<leftarrow> map average_rating ab];
             m = sum_list rated / real (length rated)
         in (\<forall>r \<in> set ab.
               bayes_average r =
                 (case average_rating r of
                    None \<Rightarrow> NaN
                  | Some a \<Rightarrow>
                      fdiv (a * real_of_int (ratings_count r) + C * m)
                           (real_of_int (ratings_count r) + C)))
            \<and> ((\<forall>r \<in> set ab. average_rating r \<noteq> None) \<longrightarrow>
                 map Some rated = map average_rating ab \<and> length rated = length ab)"
proof -
  let ?v = "sort (map ratings_count ab)"
  let ?n = "length ab"
  let ?C = "real_of_int (?v ! ((?n - 1) div 4))
                 + (real_of_int (?v ! min ((?n - 1) div 4 + 1) (?n - 1))
                    - real_of_int (?v ! ((?n - 1) div 4)))
                   * (real ((?n - 1) mod 4) / 4)"
  let ?rated = "[a. Some a \<leftarrow> map average_rating ab]"
  let ?m = "sum_list ?rated / real (length ?rated)"
  have one: "bayes_average r =
                 (case average_rating r of
                    None \<Rightarrow> NaN
                  | Some a \<Rightarrow>
                      fdiv (a * real_of_int (ratings_count r) + ?C * ?m)
                           (real_of_int (ratings_count r) + ?C))"
    if r: "r \<in> set ab" for r
  proof (cases "average_rating r")
    case None
    with all_books_score [OF assms r] show ?thesis
      by (simp add: bayes_def split: option.splits)
  next
    case (Some a)
    from r have "map ratings_count ab \<noteq> []" by auto
    then have q: "quantile (1/4) (map ratings_count ab) = Some ?C"
      using quantile_quarter [of "map ratings_count ab"] by simp
    from r have "average_rating r \<in> set (map average_rating ab)" by simp
    then have "?rated \<noteq> []" using Some by (rule rated_member)
    then have m: "mean (map average_rating ab) = Some ?m"
      by (simp add: mean_rated)
    from all_books_score [OF assms r] show ?thesis
      by (simp add: q m Some bayes_def)
  qed
  have two: "map Some ?rated = map average_rating ab \<and> length ?rated = length ab"
    if "\<forall>r \<in> set ab. average_rating r \<noteq> None"
  proof -
    from that have "\<forall>x \<in> set (map average_rating ab). x \<noteq> None" by simp
    then have "map Some [a. Some a \<leftarrow> map average_rating ab] = map average_rating ab"
      by (induction "map average_rating ab" arbitrary: ab) (auto split: option.splits)
    then show ?thesis by (metis length_map)
  qed
  from one two show ?thesis unfolding Let_def by blast
qed

theorem bayes_average_formula_witness:
  "all_books ex_mixed_goodreads ex_mixed_categories = Inr ex_mixed_books
   \<and> map ratings_count ex_mixed_books = [12, 0, 8, 0, 16, 4]
   \<and> sort (map ratings_count ex_mixed_books) = [0, 0, 4, 8, 12, 16]
   \<and> [a. Some a \<leftarrow> map average_rating ex_mixed_books] = [9/2, 7/2, 5, 3, 4]
   \<and> ex_m1 \<in> set ex_mixed_books
   \<and> average_rating ex_m1 = Some (9/2) \<and> ratings_count ex_m1 = 12
   \<and> bayes_average ex_m1 = fdiv (9/2 * 12 + 1 * 4) (12 + 1)
   \<and> bayes_average ex_m1 = Fin (58/13)
   \<and> ex_m4 \<in> set ex_mixed_books \<and> average_rating ex_m4 = None
   \<and> bayes_average ex_m4 = NaN"
proof -
  have len: "length ex_mixed_books = 6" by (simp add: ex_mixed_books_def)
  have b: "ex_m1 \<in> set ex_mixed_books" "ex_m4 \<in> set ex_mixed_books"
    by (simp_all add: ex_mixed_books_def)
  have v: "average_rating ex_m1 = Some (9/2)" "ratings_count ex_m1 = 12"
    "average_rating ex_m4 = None"
    by (simp_all add: ex_m1_def ex_m4_def ex_book_def)
  note every = bayes_average_formula [OF ex_mixed_all_books, unfolded Let_def, THEN conjunct1]
  from every [THEN bspec, OF b(1)]
  have g: "bayes_average ex_m1 = Fin (58/13)"
    by (simp add: v ex_mixed_counts ex_mixed_ratings len fdiv_def)
  then have f: "bayes_average ex_m1 = fdiv (9/2 * 12 + 1 * 4) (12 + 1)"
    by (simp add: fdiv_def)
  from every [THEN bspec, OF b(2)]
  have h: "bayes_average ex_m4 = NaN" by (simp add: v)
  from ex_mixed_all_books ex_mixed_counts ex_mixed_ratings(2) b v f g h
  show ?thesis by blast
qed

text \<open>
  Claim C8, as the code has it. A record of the filtered table with no ratings and
  with a rating that is not missing has the mean m of the ratings present (their sum
  over their number) as its Bayesian average, exactly, as soon as the percentile C is
  positive.
\<close>

theorem bayes_average_zero_count:
  assumes "all_books gs cs = Inr ab"
  shows "let v = sort (map ratings_count ab);
             n = length ab;
             C = real_of_int (v ! ((n - 1) div 4))
                 + (real_of_int (v ! min ((n - 1) div 4 + 1) (n - 1))
                    - real_of_int (v ! ((n - 1) div 4)))
                   * (real ((n - 1) mod 4) / 4);
             rated = [a. Some a \<leftarrow> map average_rating ab];
             m = sum_list rated / real (length rated)
         in (\<forall>r \<in> set ab.
               ratings_count r = 0 \<and> average_rating r \<noteq> None \<and> 0 < C \<longrightarrow>
               bayes_average r = Fin m)"
proof -
  let ?v = "sort (map ratings_count ab)"
  let ?n = "length ab"
  let ?C = "real_of_int (?v ! ((?n - 1) div 4))
                 + (real_of_int (?v ! min ((?n - 1) div 4 + 1) (?n - 1))
                    - real_of_int (?v ! ((?n - 1) div 4)))
                   * (real ((?n - 1) mod 4) / 4)"
  let ?rated = "[a. Some a \<leftarrow> map average_rating ab]"
  let ?m = "sum_list ?rated / real (length ?rated)"
  have "bayes_average r = Fin ?m"
    if r: "r \<in> set ab" and z: "ratings_count r = 0" and a: "average_rating r \<noteq> None"
      and p: "0 < ?C" for r
  proof -
    from a obtain x where x: "average_rating r = Some x" by auto
    from r have "map ratings_count ab \<noteq> []" by auto
    then have q: "quantile (1/4) (map ratings_count ab) = Some ?C"
      using quantile_quarter [of "map ratings_count ab"] by simp
    from r have "average_rating r \<in> set (map average_rating ab)" by simp
    then have "?rated \<noteq> []" using x by (rule rated_member)
    then have m: "mean (map average_rating ab) = Some ?m"
      by (simp add: mean_rated)
    from all_books_score [OF assms r] have "bayes_average r = fdiv (?C * ?m) ?C"
      by (simp add: q m x z bayes_def)
    with p show ?thesis by (simp add: fdiv_def)
  qed
  then show ?thesis unfolding Let_def by blast
qed

theorem bayes_average_zero_count_witness:
  "all_books ex_mixed_goodreads ex_mixed_categories = Inr ex_mixed_books
   \<and> sort (map ratings_count ex_mixed_books) = [0, 0, 4, 8, 12, 16]
   \<and> [a. Some a \<leftarrow> map average_rating ex_mixed_books] = [9/2, 7/2, 5, 3, 4]
   \<and> ex_m2 \<in> set ex_mixed_books
   \<and> ratings_count ex_m2 = 0 \<and> average_rating ex_m2 = Some (7/2)
   \<and> (0::real) < 0 + (4 - 0) * (1 / 4)
   \<and> bayes_average ex_m2 = Fin ((9/2 + 7/2 + 5 + 3 + 4) / 5)
   \<and> bayes_average ex_m2 = Fin 4"
proof -
  have len: "length ex_mixed_books = 6" by (simp add: ex_mixed_books_def)
  have b: "ex_m2 \<in> set ex_mixed_books" by (simp add: ex_mixed_books_def)
  have v: "ratings_count ex_m2 = 0" "average_rating ex_m2 = Some (7/2)"
    by (simp_all add: ex_m2_def ex_book_def)
  have p: "(0::real) < 0 + (4 - 0) * (1 / 4)" by simp
  from bayes_average_zero_count [OF ex_mixed_all_books, unfolded Let_def, THEN bspec, OF b]
  have g: "bayes_average ex_m2 = Fin 4"
    by (simp add: v ex_mixed_counts ex_mixed_ratings len)
  then have h: "bayes_average ex_m2 = Fin ((9/2 + 7/2 + 5 + 3 + 4) / 5)" by simp
  from ex_mixed_all_books ex_mixed_counts(2) ex_mixed_ratings(2) b v p h g
  show ?thesis by blast
qed

text \<open>
  Claim C8 as it is stated fails on a record whose rating cell is empty: with no
  ratings and a positive C its Bayesian average is (nan * 0 + C * m) / (0 + C), that is
  \<^verbatim>\<open>nan\<close>, and not m.
\<close>

theorem bayes_average_zero_count_counterexample:
  "all_books ex_mixed_goodreads ex_mixed_categories = Inr ex_mixed_books
   \<and> ex_m4 \<in> set ex_mixed_books
   \<and> ratings_count ex_m4 = 0 \<and> average_rating ex_m4 = None
   \<and> quantile (1/4) (map ratings_count ex_mixed_books) = Some 1 \<and> (0::real) < 1
   \<and> mean (map average_rating ex_mixed_books) = Some 4
   \<and> bayes_average ex_m4 = NaN
   \<and> bayes_average ex_m4 \<noteq> Fin 4"
proof -
  have b: "ex_m4 \<in> set ex_mixed_books" by (simp add: ex_mixed_books_def)
  have v: "ratings_count ex_m4 = 0" "average_rating ex_m4 = None"
    "bayes_average ex_m4 = NaN" "bayes_average ex_m4 \<noteq> Fin 4"
    by (simp_all add: ex_m4_def)
  have p: "(0::real) < 1" by simp
  from ex_mixed_all_books b v ex_mixed_quantile p ex_mixed_mean show ?thesis by blast
qed

lemma round_half_even_nearest: "spec_nearest_ties_even x (round_half_even x)"
proof -
  define f where "f = \<lfloor>x\<rfloor>"
  define d where "d = x - of_int f"
  have d: "0 \<le> d" "d < 1" unfolding d_def f_def by linarith+
  have x: "x = of_int f + d" by (simp add: d_def)
  consider "d < 1/2" | "d > 1/2" | "d = 1/2" "even f" | "d = 1/2" "odd f" by linarith
  then show ?thesis
  proof cases
    case 1
    then have "round_half_even x = f" by (simp add: round_half_even_def f_def d_def Let_def)
    with 1 d show ?thesis by (simp add: spec_nearest_ties_even_def x)
  next
    case 2
    then have "round_half_even x = f + 1" by (simp add: round_half_even_def f_def d_def Let_def)
    with 2 d show ?thesis by (simp add: spec_nearest_ties_even_def x)
  next
    case 3
    then have "round_half_even x = f" by (simp add: round_half_even_def f_def d_def Let_def)
    with 3 d show ?thesis by (simp add: spec_nearest_ties_even_def x)
  next
    case 4
    then have "round_half_even x = f + 1" by (simp add: round_half_even_def f_def d_def Let_def)
    with 4 d show ?thesis by (simp add: spec_nearest_ties_even_def x)
  qed
qed

lemma nearest_ties_even_unique:
  assumes "spec_nearest_ties_even x k" and "spec_nearest_ties_even x l"
  shows "k = l"
proof (rule ccontr)
  assume ne: "k \<noteq> l"
  from assms have a: "\<bar>x - of_int k\<bar> \<le> 1/2" "\<bar>x - of_int l\<bar> \<le> 1/2"
    by (simp_all add: spec_nearest_ties_even_def)
  then have "\<bar>real_of_int k - real_of_int l\<bar> \<le> 1" by linarith
  then have "\<bar>k - l\<bar> \<le> 1" by linarith
  with ne consider "k = l + 1" | "l = k + 1" by linarith
  then show False
  proof cases
    case 1
    with a have "\<bar>x - of_int k\<bar> = 1/2" "\<bar>x - of_int l\<bar> = 1/2" by auto
    with assms have "even k" "even l" by (simp_all add: spec_nearest_ties_even_def)
    with 1 show False by simp
  next
    case 2
    with a have "\<bar>x - of_int k\<bar> = 1/2" "\<bar>x - of_int l\<bar> = 1/2" by auto
    with assms have "even k" "even l" by (simp_all add: spec_nearest_ties_even_def)
    with 2 show False by simp
  qed
qed

lemma round_half_even_range:
  assumes "0 \<le> x" and "x \<le> 5"
  shows "0 \<le> round_half_even x \<and> round_half_even x \<le> 5"
proof -
  from round_half_even_nearest [of x]
  have "\<bar>x - of_int (round_half_even x)\<bar> \<le> 1/2" by (simp add: spec_nearest_ties_even_def)
  with assms have "- 1/2 \<le> real_of_int (round_half_even x)" "real_of_int (round_half_even x) \<le> 11/2"
    by linarith+
  then show ?thesis by linarith
qed

text \<open>
  Claim C9, as the code has it. For every record whose rating is not missing,
  rounded_rating is average_rating rounded to the nearest integer, a tie going to the
  even neighbour, and no other integer is; it lies between 0 and 5 when average_rating
  does. A record whose rating is missing has a missing rounded_rating. The pipeline
  checks no range.
\<close>

theorem rounded_rating_nearest:
  assumes "all_books gs cs = Inr ab" and "r \<in> set ab"
  shows "(average_rating r = None \<longrightarrow> rounded_rating r = None)
       \<and> (\<forall>a. average_rating r = Some a \<longrightarrow>
            rounded_rating r = Some (round_half_even a)
            \<and> spec_nearest_ties_even a (round_half_even a)
            \<and> (\<forall>k. spec_nearest_ties_even a k \<longrightarrow> k = round_half_even a)
            \<and> (0 \<le> a \<and> a \<le> 5 \<longrightarrow> 0 \<le> round_half_even a \<and> round_half_even a \<le> 5))"
proof -
  from all_books_score [OF assms]
  have eq: "rounded_rating r = map_option round_half_even (average_rating r)" by simp
  have none: "average_rating r = None \<longrightarrow> rounded_rating r = None"
    by (simp add: eq)
  have some: "rounded_rating r = Some (round_half_even a)
            \<and> spec_nearest_ties_even a (round_half_even a)
            \<and> (\<forall>k. spec_nearest_ties_even a k \<longrightarrow> k = round_half_even a)
            \<and> (0 \<le> a \<and> a \<le> 5 \<longrightarrow> 0 \<le> round_half_even a \<and> round_half_even a \<le> 5)"
    if "average_rating r = Some a" for a
    using that eq round_half_even_nearest [of a] nearest_ties_even_unique [of a]
      round_half_even_range [of a]
    by auto
  from none some show ?thesis by blast
qed

theorem rounded_rating_nearest_witness:
  "all_books ex_mixed_goodreads ex_mixed_categories = Inr ex_mixed_books
   \<and> ex_m1 \<in> set ex_mixed_books \<and> average_rating ex_m1 = Some (9/2)
   \<and> rounded_rating ex_m1 = Some 4
   \<and> ex_m2 \<in> set ex_mixed_books \<and> average_rating ex_m2 = Some (7/2)
   \<and> rounded_rating ex_m2 = Some 4
   \<and> spec_nearest_ties_even (9/2) 4 \<and> spec_nearest_ties_even (7/2) 4
   \<and> round_half_even (9/2) = 4 \<and> round_half_even (7/2) = 4
   \<and> (0::real) \<le> 9/2 \<and> (9/2::real) \<le> 5 \<and> (0::int) \<le> 4 \<and> (4::int) \<le> 5
   \<and> ex_m4 \<in> set ex_mixed_books \<and> average_rating ex_m4 = None
   \<and> rounded_rating ex_m4 = None"
proof -
  have m: "ex_m1 \<in> set ex_mixed_books" "ex_m2 \<in> set ex_mixed_books"
    "ex_m4 \<in> set ex_mixed_books"
    by (simp_all add: ex_mixed_books_def)
  have v: "average_rating ex_m1 = Some (9/2)" "rounded_rating ex_m1 = Some 4"
    "average_rating ex_m2 = Some (7/2)" "rounded_rating ex_m2 = Some 4"
    "average_rating ex_m4 = None"
    by (simp_all add: ex_m1_def ex_m2_def ex_m4_def ex_book_def)
  note t1 = rounded_rating_nearest [OF ex_mixed_all_books m(1), THEN conjunct2, THEN spec,
      THEN mp, OF v(1)]
  note t2 = rounded_rating_nearest [OF ex_mixed_all_books m(2), THEN conjunct2, THEN spec,
      THEN mp, OF v(3)]
  note t4 = rounded_rating_nearest [OF ex_mixed_all_books m(3), THEN conjunct1, THEN mp,
      OF v(5)]
  from t1 v(2) have r1: "round_half_even (9/2) = 4" by simp
  from t2 v(4) have r2: "round_half_even (7/2) = 4" by simp
  from t1 have "spec_nearest_ties_even (9/2) (round_half_even (9/2))" by (rule conjunct2 [THEN conjunct1])
  then have a: "spec_nearest_ties_even (9/2) 4" by (simp only: r1)
  from t2 have "spec_nearest_ties_even (7/2) (round_half_even (7/2))" by (rule conjunct2 [THEN conjunct1])
  then have b: "spec_nearest_ties_even (7/2) 4" by (simp only: r2)
  note c = t4
  from ex_mixed_all_books m v a b r1 r2 c show ?thesis by simp
qed

text \<open>
  Claim C9 as it is stated fails on a rating outside the range and on a missing rating:
  a cell of 7 in the column average_rating gives a rounded rating of 7, and an empty
  cell gives a rounded rating that is \<^verbatim>\<open>nan\<close>, no integer at all.
\<close>

theorem rounded_rating_range_counterexample:
  "map_sum id (map (\<lambda>r. (average_rating r, rounded_rating r)))
     (all_books ex_high_goodreads ex_categories)
   = Inr [(Some 7, Some 7), (Some (7/2), Some 4), (Some 5, Some 5), (Some 3, Some 3),
          (Some 4, Some 4)]
   \<and> all_books ex_mixed_goodreads ex_mixed_categories = Inr ex_mixed_books
   \<and> ex_m4 \<in> set ex_mixed_books
   \<and> average_rating ex_m4 = None \<and> rounded_rating ex_m4 = None"
proof -
  have a: "map_sum id (map (\<lambda>r. (average_rating r, rounded_rating r)))
     (all_books ex_high_goodreads ex_categories)
   = Inr [(Some 7, Some 7), (Some (7/2), Some 4), (Some 5, Some 5), (Some 3, Some 3),
          (Some 4, Some 4)]"
    by (simp add: all_books_def astype_columns_def merge_def ex_high_goodreads_def
        ex_categories_def g_row_def c_row_def cast_row_def astype_str_def read_cell_simps
        replace_categories_def replace_genre_simps
        frequency_filter_def frequency_def map_frequency_def score_def quantile_def mean_def
        bayes_def fdiv_def round_half_even_def Let_def)
  have b: "ex_m4 \<in> set ex_mixed_books" by (simp add: ex_mixed_books_def)
  have c: "average_rating ex_m4 = None" "rounded_rating ex_m4 = None"
    by (simp_all add: ex_m4_def)
  from a ex_mixed_all_books b c show ?thesis by blast
qed

section \<open>Matching authors\<close>

lemma plain_char_not_dot: "plain_char p \<Longrightarrow> p \<noteq> CHR ''.''"
  by (auto simp add: plain_char_def re_metachars_def)

lemma match_here_prefix:
  "list_all plain_char pat \<Longrightarrow>
   match_here pat s = prefix (map ascii_lower pat) (map ascii_lower s)"
proof (induction pat s rule: match_here.induct)
  case (1 s)
  show ?case by simp
next
  case (2 p ps)
  show ?case by simp
next
  case (3 p ps c cs)
  then show ?case by (simp add: plain_char_not_dot)
qed

lemma re_search_sublist:
  assumes "list_all plain_char pat"
  shows "re_search pat s = spec_ci_substring pat s"
proof (induction s)
  case Nil
  show ?case
    by (cases pat) (simp_all add: spec_ci_substring_def)
next
  case (Cons c cs)
  show ?case
    using Cons.IH
    by (simp add: spec_ci_substring_def match_here_prefix [OF assms] sublist_Cons_right)
qed

lemma re_compile_plain:
  "list_all plain_char pat \<Longrightarrow> re_compile_ignorecase other pat = Inr (re_search pat)"
  by (simp add: re_compile_ignorecase_def list_all_iff)

lemma narrowed_author_plain:
  assumes "list_all plain_char author"
  shows "narrowed_author other author books =
     Inr (filter (\<lambda>r. case authors r of None \<Rightarrow> False | Some s \<Rightarrow> spec_ci_substring author s)
            books)"
proof -
  have "re_search author = spec_ci_substring author"
    using re_search_sublist [OF assms] by (intro ext)
  then show ?thesis
    by (simp add: narrowed_author_def re_compile_plain [OF assms])
qed

lemma narrowed_author_not_missing:
  "narrowed_author other author books = Inr narrowed \<Longrightarrow> r \<in> set narrowed \<Longrightarrow>
   authors r \<noteq> None"
  by (auto simp add: narrowed_author_def split: sum.splits option.splits)

lemma narrowed_author_error:
  "narrowed_author other author books = Inl e \<longleftrightarrow> re_compile_ignorecase other author = Inl e"
  by (auto simp add: narrowed_author_def split: sum.splits)

lemma ascii_lower_simps:
  "ascii_lower CHR ''J'' = CHR ''j''" "ascii_lower CHR ''j'' = CHR ''j''"
  "ascii_lower CHR ''a'' = CHR ''a''" "ascii_lower CHR ''n'' = CHR ''n''"
  "ascii_lower CHR ''e'' = CHR ''e''" "ascii_lower CHR ''.'' = CHR ''.''"
  "ascii_lower CHR '' '' = CHR '' ''" "ascii_lower CHR ''A'' = CHR ''a''"
  "ascii_lower CHR ''u'' = CHR ''u''" "ascii_lower CHR ''s'' = CHR ''s''"
  "ascii_lower CHR ''t'' = CHR ''t''"
  by (simp_all add: ascii_lower_def)

lemma ex_narrowed_jane: "narrowed_author reject_other ''jane'' ex_books = Inr [ex_b2, ex_b4]"
  by (simp add: narrowed_author_def re_compile_ignorecase_def plain_char_def re_metachars_def
      ex_books_def ex_authors ascii_lower_def)

lemma ex_narrowed_dot:
  "narrowed_author reject_other ''.'' ex_books = Inr [ex_b1, ex_b2, ex_b3, ex_b4]"
  by (simp add: narrowed_author_def re_compile_ignorecase_def plain_char_def re_metachars_def
      ex_books_def ex_authors ascii_lower_def)

lemma ex_narrowed_empty:
  "narrowed_author reject_other [] ex_books = Inr [ex_b1, ex_b2, ex_b3, ex_b4]"
  by (simp add: narrowed_author_def re_compile_ignorecase_def ex_books_def ex_authors)

lemma ex_dot_no_substring: "\<not> spec_ci_substring ''.'' ''Jane Austen''"
  by (simp add: spec_ci_substring_def sublist_Cons_right ascii_lower_simps)

lemma ex_jane_substring: "spec_ci_substring ''jane'' ''Jane Austen''"
  by (simp add: spec_ci_substring_def sublist_Cons_right ascii_lower_simps)

lemma ex_compile_paren: "re_compile_ignorecase other ''('' = Inl ReError"
  by (simp add: re_compile_ignorecase_def unclosed_group_def plain_char_def re_metachars_def)

lemma ex_narrowed_paren: "narrowed_author other ''('' books = Inl ReError"
  by (simp add: narrowed_author_def ex_compile_paren)

section \<open>The claims about the queries\<close>






lemma ex_sort_jane: "sort_values (narrowed_pages From300To499 [ex_b2, ex_b4]) [ex_b2]"
  by (rule sort_values_intro [where zs = "[ex_b2]"])
     (simp_all add: narrowed_pages_def ex_pages ex_keys)

lemma ex_recommend_jane:
  "recommend reject_other Author ''jane'' From300To499 10 ex_books (Inr [ex_b2])"
  by (rule by_author [OF ex_narrowed_jane], rule narrowed_general_intro, rule ex_sort_jane)
     (simp add: ex_rounded)

text \<open>
  Claim C6, as the code has it. A query shows at most number_rec records. With
  number_rec = 0 the empty sequence is the one outcome of \<open>narrowed_general\<close>, of a
  query by genre and of a query with neither author nor genre chosen. A query by author
  has it as its one outcome when the text of the author box compiles as a regular
  expression; when it does not, the one outcome is the error raised on line 256,
  whatever the count. Every query has an outcome.
\<close>

theorem result_count_bounded:
  "(recommend other choice input pages number_rec books (Inr shown) \<longrightarrow>
      length shown \<le> number_rec)
   \<and> (recommend other choice input pages 0 books (Inr shown) \<longrightarrow> shown = [])
   \<and> (narrowed_general pages 0 narrowed_set user_input outcome \<longleftrightarrow> outcome = Inr [])
   \<and> (recommend other Genre genre pages 0 books outcome \<longleftrightarrow> outcome = Inr [])
   \<and> (recommend other Blank input pages 0 books outcome \<longleftrightarrow> outcome = Inr [])
   \<and> (recommend other Author author pages 0 books outcome \<longleftrightarrow>
        (case re_compile_ignorecase other author of
           Inl e \<Rightarrow> outcome = Inl RegexError
         | Inr found \<Rightarrow> outcome = Inr []))
   \<and> (\<exists>result. recommend other choice input pages number_rec books result)"
proof (intro conjI)
  show "recommend other choice input pages number_rec books (Inr shown) \<longrightarrow>
      length shown \<le> number_rec"
    using recommend_length by blast
  show "recommend other choice input pages 0 books (Inr shown) \<longrightarrow> shown = []"
    using recommend_length by fastforce
  show "narrowed_general pages 0 narrowed_set user_input outcome \<longleftrightarrow> outcome = Inr []"
    by (rule narrowed_general_zero)
  show "recommend other Genre genre pages 0 books outcome \<longleftrightarrow> outcome = Inr []"
    by (simp add: recommend_genre_iff narrowed_general_zero)
  show "recommend other Blank input pages 0 books outcome \<longleftrightarrow> outcome = Inr []"
    by (rule recommend_blank_iff)
  show "recommend other Author author pages 0 books outcome \<longleftrightarrow>
        (case re_compile_ignorecase other author of
           Inl e \<Rightarrow> outcome = Inl RegexError
         | Inr found \<Rightarrow> outcome = Inr [])"
    by (simp add: recommend_author_iff narrowed_general_zero narrowed_author_def
        split: sum.splits)
  show "\<exists>result. recommend other choice input pages number_rec books result"
    by (rule recommend_total)
qed

theorem result_count_bounded_witness:
  "recommend reject_other Genre ''Humor'' Under300 2 ex_books (Inr [ex_b3, ex_b1])
   \<and> length [ex_b3, ex_b1] \<le> (2::nat)
   \<and> recommend reject_other Genre ''Humor'' From500 0 ex_books (Inr [])
   \<and> re_compile_ignorecase reject_other ''jane'' = Inr (re_search ''jane'')
   \<and> recommend reject_other Author ''jane'' From300To499 0 ex_books (Inr [])"
proof -
  note t = result_count_bounded [where other = reject_other and choice = Genre
      and input = "''Humor''" and pages = Under300 and number_rec = 2 and books = ex_books
      and shown = "[ex_b3, ex_b1]"]
  from t ex_recommend_humor have a: "length [ex_b3, ex_b1] \<le> (2::nat)" by blast
  from result_count_bounded [where other = reject_other and pages = From500
      and books = ex_books and genre = "''Humor''" and outcome = "Inr []"]
  have b: "recommend reject_other Genre ''Humor'' From500 0 ex_books (Inr [])" by blast
  have p: "list_all plain_char ''jane''"
    by (simp add: plain_char_def re_metachars_def)
  have c: "re_compile_ignorecase reject_other ''jane'' = Inr (re_search ''jane'')"
    using p by (rule re_compile_plain)
  from result_count_bounded [where other = reject_other and pages = From300To499
      and books = ex_books and author = "''jane''" and outcome = "Inr []"]
  have d: "recommend reject_other Author ''jane'' From300To499 0 ex_books (Inr [])"
    by (simp add: c)
  from ex_recommend_humor a b c d show ?thesis by blast
qed

text \<open>
  Claim C6 as it is stated fails on a query by author whose text does not compile:
  with the text \<^verbatim>\<open>(\<close> and a count of 0, line 256 raises \<^verbatim>\<open>re.error\<close> before
  \<^verbatim>\<open>head(0)\<close> is reached, and the empty sequence is no outcome of the query.
\<close>

theorem result_count_counterexample:
  "all_books ex_goodreads ex_categories = Inr ex_books
   \<and> re_compile_ignorecase reject_other ''('' = Inl ReError
   \<and> recommend reject_other Author ''('' Under300 0 ex_books (Inl RegexError)
   \<and> \<not> recommend reject_other Author ''('' Under300 0 ex_books (Inr [])"
proof -
  have a: "recommend reject_other Author ''('' Under300 0 ex_books (Inl RegexError)"
    by (simp add: recommend_author_iff ex_narrowed_paren)
  have b: "\<not> recommend reject_other Author ''('' Under300 0 ex_books (Inr [])"
    by (simp add: recommend_author_iff ex_narrowed_paren)
  from ex_all_books ex_compile_paren a b show ?thesis by blast
qed

text \<open>
  Claim C10. In author mode no record with a missing authors field is ever a
  candidate, nor shown, whatever the text searched for, the page option and the count;
  the search raises an error only when the regular expression does, whatever the table
  holds.
\<close>

theorem missing_author_never_candidate:
  "(narrowed_author other author books = Inr narrowed \<longrightarrow>
      (\<forall>r \<in> set narrowed. authors r \<noteq> None))
   \<and> (recommend other Author author pages number_rec books (Inr shown) \<longrightarrow>
      (\<forall>r \<in> set shown. authors r \<noteq> None))
   \<and> (narrowed_author other author books = Inl e \<longleftrightarrow>
      re_compile_ignorecase other author = Inl e)"
proof (intro conjI)
  show "narrowed_author other author books = Inr narrowed \<longrightarrow>
      (\<forall>r \<in> set narrowed. authors r \<noteq> None)"
    using narrowed_author_not_missing by blast
  show "recommend other Author author pages number_rec books (Inr shown) \<longrightarrow>
      (\<forall>r \<in> set shown. authors r \<noteq> None)"
  proof (intro impI ballI)
    fix r
    assume "recommend other Author author pages number_rec books (Inr shown)"
      and r: "r \<in> set shown"
    then obtain narrowed where n: "narrowed_author other author books = Inr narrowed"
      and g: "narrowed_general pages number_rec narrowed author (Inr shown)"
      by (auto simp add: recommend_author_iff split: sum.splits)
    from g r have "r \<in> set narrowed" using narrowed_general_subset by blast
    with n show "authors r \<noteq> None" by (rule narrowed_author_not_missing)
  qed
  show "narrowed_author other author books = Inl e \<longleftrightarrow>
      re_compile_ignorecase other author = Inl e"
    by (rule narrowed_author_error)
qed

theorem missing_author_never_candidate_witness:
  "ex_b5 \<in> set ex_books \<and> authors ex_b5 = None
   \<and> narrowed_author reject_other [] ex_books = Inr [ex_b1, ex_b2, ex_b3, ex_b4]
   \<and> authors ex_b1 \<noteq> None \<and> authors ex_b2 \<noteq> None
   \<and> authors ex_b3 \<noteq> None \<and> authors ex_b4 \<noteq> None
   \<and> recommend reject_other Author ''jane'' From300To499 10 ex_books (Inr [ex_b2])"
proof -
  have m: "ex_b5 \<in> set ex_books" by (simp add: ex_books_def)
  from missing_author_never_candidate [where other = reject_other and author = "[]"
      and books = ex_books and narrowed = "[ex_b1, ex_b2, ex_b3, ex_b4]"]
    ex_narrowed_empty
  have a: "authors ex_b1 \<noteq> None \<and> authors ex_b2 \<noteq> None
   \<and> authors ex_b3 \<noteq> None \<and> authors ex_b4 \<noteq> None"
    by simp
  from missing_author_never_candidate [where other = reject_other and author = "''jane''"
      and pages = From300To499 and number_rec = 10 and books = ex_books and shown = "[ex_b2]"]
    ex_recommend_jane
  have "authors ex_b2 \<noteq> None" by simp
  with a m ex_authors(5) ex_narrowed_empty ex_recommend_jane show ?thesis by blast
qed

text \<open>
  Claim C5, as the code has it. In author mode the text of the author box is searched
  for as a regular expression, the case of letters ignored. For a text of ASCII
  characters none of which is special in a regular expression, a record is a candidate
  if and only if the text occurs in its authors field as a substring, the case ignored.
  An empty author input shows the empty sequence, for every page option and count.
\<close>

theorem author_matching:
  "(list_all plain_char author \<longrightarrow>
      narrowed_author other author books =
        Inr (filter (\<lambda>r. case authors r of None \<Rightarrow> False
                        | Some s \<Rightarrow> spec_ci_substring author s) books))
   \<and> (recommend other Author [] pages number_rec books outcome \<longleftrightarrow> outcome = Inr [])"
proof (intro conjI)
  show "list_all plain_char author \<longrightarrow>
      narrowed_author other author books =
        Inr (filter (\<lambda>r. case authors r of None \<Rightarrow> False
                        | Some s \<Rightarrow> spec_ci_substring author s) books)"
    using narrowed_author_plain by blast
  have "\<exists>narrowed. narrowed_author other [] books = Inr narrowed"
    using narrowed_author_plain [of "[]" other books] by simp
  then show "recommend other Author [] pages number_rec books outcome \<longleftrightarrow> outcome = Inr []"
    by (auto simp add: recommend_author_iff narrowed_general_empty_input)
qed

theorem author_matching_witness:
  "list_all plain_char ''jane''
   \<and> narrowed_author reject_other ''jane'' ex_books = Inr [ex_b2, ex_b4]
   \<and> filter (\<lambda>r. case authors r of None \<Rightarrow> False
                | Some s \<Rightarrow> spec_ci_substring ''jane'' s) ex_books = [ex_b2, ex_b4]
   \<and> authors ex_b2 = Some ''Jane Austen'' \<and> spec_ci_substring ''jane'' ''Jane Austen''
   \<and> recommend reject_other Author [] Under300 10 ex_books (Inr [])"
proof -
  have p: "list_all plain_char ''jane''"
    by (simp add: plain_char_def re_metachars_def)
  from author_matching [of "''jane''" reject_other ex_books] p ex_narrowed_jane
  have f: "filter (\<lambda>r. case authors r of None \<Rightarrow> False
                | Some s \<Rightarrow> spec_ci_substring ''jane'' s) ex_books = [ex_b2, ex_b4]"
    by simp
  from author_matching [of _ reject_other ex_books Under300 10 "Inr []"]
  have e: "recommend reject_other Author [] Under300 10 ex_books (Inr [])" by blast
  from p ex_narrowed_jane f ex_authors(2) ex_jane_substring e show ?thesis by blast
qed

text \<open>
  Claim C5 as it is stated fails on a text that is special in a regular expression: the
  full stop matches any character, so every book with an author is a candidate for
  it, though no full stop occurs in \<^verbatim>\<open>Jane Austen\<close>.
\<close>

theorem author_regex_counterexample:
  "narrowed_author reject_other ''.'' ex_books = Inr [ex_b1, ex_b2, ex_b3, ex_b4]
   \<and> authors ex_b2 = Some ''Jane Austen''
   \<and> \<not> spec_ci_substring ''.'' ''Jane Austen''"
  using ex_narrowed_dot ex_authors(2) ex_dot_no_substring by blast

end
